theory Spec2Isabelle
  imports Main "HOL-Library.Word"
begin

section \<open>BlueZ media transport (audio/transport.c): data model\<close>

text \<open>
  The transport, its owners and their acquire requests are C structs; they become
  records. Fields that no modelled function reads (\<open>conn\<close>, \<open>path\<close>, \<open>device\<close>,
  \<open>endpoint\<close>, \<open>configuration\<close>, \<open>size\<close>) are left out. The three function
  pointers \<open>resume\<close>, \<open>suspend\<close>, \<open>cancel\<close> are always set together by
  \<open>media_transport_create\<close>, so one tag \<open>profile\<close> stands for them.

  C strings are \<open>string\<close>; \<open>guint\<close> is a 32-bit word, \<open>uint16_t\<close> a 16-bit word. The
  file descriptor is only stored and compared, never computed with, so it is an \<open>int\<close>.
\<close>

type_synonym guint = "32 word"
type_synonym uint16 = "16 word"

text \<open>
  A D-Bus method call as the handlers see it: \<open>sender\<close> is what
  \<open>dbus_message_get_sender\<close> returns, \<open>args\<close> what \<open>dbus_message_get_args\<close>
  extracts for the signature of one string (\<open>None\<close> when it fails).
\<close>

record dbus_msg =
  serial :: nat
  sender :: string
  args :: "string option"

record acquire_request =
  msg :: dbus_msg
  req_id :: guint

text \<open>
  Owners are heap objects known by their address: \<open>ptr\<close> is that address. The list
  \<open>owners\<close> of the transport holds the live owners in list order.
\<close>

record media_owner =
  ptr :: nat
  name :: string
  accesstype :: string
  watch :: guint
  request :: "acquire_request option"

datatype profile = A2DP | HEADSET

text \<open>
  What the code does to its collaborators (D-Bus, the A2DP and headset layers), in the
  order it does it.
\<close>

datatype event =
    Send_error dbus_msg string
  | Send_reply_fd dbus_msg int
  | Message_unref dbus_msg
  | Add_disconnect_watch string nat
  | Remove_watch guint
  | Emit_property_changed string uint16
  | Avdtp_get
  | A2dp_sep_lock
  | A2dp_sep_unlock bool
  | A2dp_resume nat
  | A2dp_cancel guint
  | Headset_lock
  | Headset_unlock
  | Headset_request_stream nat
  | Headset_cancel_stream guint

text \<open>
  \<open>session\<close> is whether the signalling session pointer is non-NULL. The last two fields
  are not C fields: \<open>effects\<close> records the calls made to the collaborators and \<open>idle\<close>
  the owners for which \<open>g_idle_add (remove_owner, owner)\<close> is pending.
\<close>

record media_transport =
  profile :: profile
  session :: bool
  owners :: "media_owner list"
  fd :: int
  imtu :: uint16
  omtu :: uint16
  delay :: uint16
  read_lock :: bool
  write_lock :: bool
  in_use :: bool
  effects :: "event list"
  idle :: "nat list"

text \<open>A reply returned by a method handler; \<open>None\<close> stands for the C \<open>NULL\<close>.\<close>

datatype reply =
    Error_Failed dbus_msg string
  | Method_return dbus_msg

text \<open>
  What the collaborators answer during one \<open>Acquire\<close>: each field is the return value
  of the function it is named after (for pointers, whether it is non-NULL).
\<close>

record env =
  g_dbus_add_disconnect_watch :: guint
  avdtp_get :: bool
  a2dp_sep_lock :: bool
  a2dp_resume :: guint
  headset_lock :: bool
  headset_request_stream :: guint

section \<open>GLib string functions used by the code\<close>

fun starts_with :: "string \<Rightarrow> string \<Rightarrow> bool" where
  "starts_with hs [] = True"
| "starts_with [] (n # ns) = False"
| "starts_with (h # hs) (n # ns) = (h = n \<and> starts_with hs ns)"

text \<open>
  \<open>g_strstr_len (haystack, -1, needle) != NULL\<close>: the needle occurs in the haystack as a
  contiguous run. The empty needle occurs in every haystack.
\<close>

fun g_strstr_len :: "string \<Rightarrow> string \<Rightarrow> bool" where
  "g_strstr_len [] needle = starts_with [] needle"
| "g_strstr_len (h # hs) needle = (starts_with (h # hs) needle \<or> g_strstr_len hs needle)"

text \<open>\<open>g_strdelimit\<close>: every character of the string that is a delimiter is overwritten.\<close>

definition g_strdelimit :: "string \<Rightarrow> string \<Rightarrow> char \<Rightarrow> string" where
  "g_strdelimit s delimiters new_delim =
     map (\<lambda>c. if c \<in> set delimiters then new_delim else c) s"

section \<open>Owner list and heap access\<close>

text \<open>\<open>g_slist_remove\<close>: unlink the first node whose data is the given pointer.\<close>

fun g_slist_remove :: "media_owner list \<Rightarrow> nat \<Rightarrow> media_owner list" where
  "g_slist_remove [] p = []"
| "g_slist_remove (x # xs) p = (if ptr x = p then xs else x # g_slist_remove xs p)"

text \<open>Reading and writing the owner at an address.\<close>

definition owner_at :: "media_transport \<Rightarrow> nat \<Rightarrow> media_owner option" where
  "owner_at transport p = find (\<lambda>x. ptr x = p) (owners transport)"

definition update_owner ::
  "media_transport \<Rightarrow> nat \<Rightarrow> (media_owner \<Rightarrow> media_owner) \<Rightarrow> media_transport" where
  "update_owner transport p f =
     transport\<lparr>owners := map (\<lambda>x. if ptr x = p then f x else x) (owners transport)\<rparr>"

text \<open>
  \<open>g_new0\<close> returns an address that no live owner has. The model takes the least
  address above all live ones; any unused address would do.
\<close>

definition new_ptr :: "media_owner list \<Rightarrow> nat" where
  "new_ptr xs = Suc (fold max (map ptr xs) 0)"

definition emit :: "media_transport \<Rightarrow> event \<Rightarrow> media_transport" where
  "emit transport e = transport\<lparr>effects := effects transport @ [e]\<rparr>"

section \<open>The functions of transport.c\<close>

definition cancel_a2dp :: "media_transport \<Rightarrow> guint \<Rightarrow> media_transport" where
  "cancel_a2dp transport i = emit transport (A2dp_cancel i)"

definition cancel_headset :: "media_transport \<Rightarrow> guint \<Rightarrow> media_transport" where
  "cancel_headset transport i = emit transport (Headset_cancel_stream i)"

definition cancel :: "media_transport \<Rightarrow> guint \<Rightarrow> media_transport" where
  "cancel transport i =
     (case profile transport of
        A2DP \<Rightarrow> cancel_a2dp transport i
      | HEADSET \<Rightarrow> cancel_headset transport i)"

definition suspend_a2dp :: "media_transport \<Rightarrow> media_transport" where
  "suspend_a2dp transport =
     (emit transport (A2dp_sep_unlock (session transport)))\<lparr>in_use := False\<rparr>"

definition suspend_headset :: "media_transport \<Rightarrow> media_transport" where
  "suspend_headset transport = (emit transport Headset_unlock)\<lparr>in_use := False\<rparr>"

definition suspend :: "media_transport \<Rightarrow> media_transport" where
  "suspend transport =
     (case profile transport of
        A2DP \<Rightarrow> suspend_a2dp transport
      | HEADSET \<Rightarrow> suspend_headset transport)"

text \<open>
  \<open>acquire_request_free\<close>: cancel the ticket if there is one, drop the message, clear
  the owner's request pointer. The owner is passed as the caller holds it and returned
  as written; the copy on the heap is written too.
\<close>

definition acquire_request_free ::
  "media_transport \<Rightarrow> media_owner \<Rightarrow> acquire_request \<Rightarrow> media_transport \<times> media_owner" where
  "acquire_request_free transport owner req =
     (let t1 = (if req_id req \<noteq> 0 then cancel transport (req_id req) else transport);
          t2 = emit t1 (Message_unref (msg req));
          t3 = update_owner t2 (ptr owner) (\<lambda>x. x\<lparr>request := None\<rparr>)
      in (t3, owner\<lparr>request := None\<rparr>))"

text \<open>\<open>media_transport_release\<close> always returns TRUE; only the transport is returned.\<close>

definition media_transport_release :: "media_transport \<Rightarrow> string \<Rightarrow> media_transport" where
  "media_transport_release transport atype =
     (let t1 = (if g_strstr_len atype ''r'' then transport\<lparr>read_lock := False\<rparr> else transport)
      in if g_strstr_len atype ''w'' then t1\<lparr>write_lock := False\<rparr> else t1)"

definition strerror_EIO :: string where
  "strerror_EIO = ''Input/output error''"

definition media_owner_remove :: "media_transport \<Rightarrow> media_owner \<Rightarrow> media_transport" where
  "media_owner_remove transport owner =
     (let t1 = media_transport_release transport (accesstype owner);
          t2 = (if watch owner \<noteq> 0 then emit t1 (Remove_watch (watch owner)) else t1);
          t3 = (case request owner of
                  None \<Rightarrow> t2
                | Some req \<Rightarrow>
                    fst (acquire_request_free
                           (emit t2 (Send_error (msg req) strerror_EIO)) owner req));
          t4 = t3\<lparr>owners := g_slist_remove (owners t3) (ptr owner)\<rparr>
      in if owners t4 = [] then suspend t4 else t4)"

definition media_transport_set_fd ::
  "media_transport \<Rightarrow> int \<Rightarrow> uint16 \<Rightarrow> uint16 \<Rightarrow> media_transport" where
  "media_transport_set_fd transport fd' imtu' omtu' =
     (if fd transport = fd' then transport
      else
        (let t1 = transport\<lparr>fd := fd', imtu := imtu', omtu := omtu'\<rparr>;
             t2 = emit t1 (Emit_property_changed ''IMTU'' (imtu t1))
         in emit t2 (Emit_property_changed ''OMTU'' (omtu t2))))"

text \<open>
  The idle callback \<open>remove_owner\<close> and the completion callbacks get the owner as an
  address. In C a dangling address is undefined behaviour and a NULL request a crash;
  both are \<open>None\<close> here.
\<close>

definition remove_owner :: "media_transport \<Rightarrow> nat \<Rightarrow> media_transport option" where
  "remove_owner transport p =
     (case owner_at transport p of
        None \<Rightarrow> None
      | Some owner \<Rightarrow> Some (media_owner_remove transport owner))"

definition g_idle_add_remove_owner :: "media_transport \<Rightarrow> nat \<Rightarrow> media_transport" where
  "g_idle_add_remove_owner transport p = transport\<lparr>idle := idle transport @ [p]\<rparr>"

text \<open>
  \<open>a2dp_resume_complete\<close>: \<open>err\<close> is whether the error pointer is set, \<open>stream\<close>
  whether \<open>a2dp_sep_get_stream\<close> found one, \<open>stream_transport\<close> the result of
  \<open>avdtp_stream_get_transport\<close> and \<open>sent\<close> that of \<open>g_dbus_send_reply\<close>.
\<close>

definition a2dp_resume_complete ::
  "bool \<Rightarrow> bool \<Rightarrow> (int \<times> uint16 \<times> uint16) option \<Rightarrow> bool \<Rightarrow>
   media_transport \<Rightarrow> nat \<Rightarrow> media_transport option" where
  "a2dp_resume_complete err stream stream_transport sent transport p =
     (case owner_at transport p of
        None \<Rightarrow> None
      | Some owner \<Rightarrow>
          (case request owner of
             None \<Rightarrow> None
           | Some req \<Rightarrow>
               (let t1 = update_owner transport p
                           (\<lambda>x. x\<lparr>request := Some (req\<lparr>req_id := 0\<rparr>)\<rparr>)
                in if err then Some (g_idle_add_remove_owner t1 p)
                   else if \<not> stream then Some (g_idle_add_remove_owner t1 p)
                   else
                     (case stream_transport of
                        None \<Rightarrow> Some (g_idle_add_remove_owner t1 p)
                      | Some (fd', imtu', omtu') \<Rightarrow>
                          (let t2 = media_transport_set_fd t1 fd' imtu' omtu';
                               t3 = emit t2 (Send_reply_fd (msg req) fd')
                           in if \<not> sent then Some (g_idle_add_remove_owner t3 p)
                              else Some t3)))))"

definition resume_a2dp ::
  "env \<Rightarrow> media_transport \<Rightarrow> media_owner \<Rightarrow> guint \<times> media_transport" where
  "resume_a2dp e transport owner =
     (let t1 = (if \<not> session transport
                then (emit transport Avdtp_get)\<lparr>session := avdtp_get e\<rparr>
                else transport)
      in if \<not> session t1 then (0, t1)
         else if in_use t1
         then (a2dp_resume e, emit t1 (A2dp_resume (ptr owner)))
         else
           (let t2 = (emit t1 A2dp_sep_lock)\<lparr>in_use := a2dp_sep_lock e\<rparr>
            in if \<not> in_use t2 then (0, t2)
               else (a2dp_resume e, emit t2 (A2dp_resume (ptr owner)))))"

text \<open>
  \<open>headset_resume_complete\<close>: \<open>dev\<close> is whether the device pointer is non-NULL,
  \<open>sco_fd\<close> what \<open>headset_get_sco_fd\<close> returns.
\<close>

definition headset_resume_complete ::
  "bool \<Rightarrow> int \<Rightarrow> bool \<Rightarrow> media_transport \<Rightarrow> nat \<Rightarrow> media_transport option" where
  "headset_resume_complete dev sco_fd sent transport p =
     (case owner_at transport p of
        None \<Rightarrow> None
      | Some owner \<Rightarrow>
          (case request owner of
             None \<Rightarrow> None
           | Some req \<Rightarrow>
               (let req0 = req\<lparr>req_id := 0\<rparr>;
                    owner0 = owner\<lparr>request := Some req0\<rparr>;
                    t1 = update_owner transport p (\<lambda>x. x\<lparr>request := Some req0\<rparr>)
                in if \<not> dev then Some (media_owner_remove t1 owner0)
                   else if sco_fd < 0 then Some (media_owner_remove t1 owner0)
                   else
                     (let t2 = media_transport_set_fd t1 sco_fd 48 48;
                          t3 = emit t2 (Send_reply_fd (msg req0) sco_fd)
                      in if \<not> sent then Some (media_owner_remove t3 owner0)
                         else Some t3))))"

definition resume_headset ::
  "env \<Rightarrow> media_transport \<Rightarrow> media_owner \<Rightarrow> guint \<times> media_transport" where
  "resume_headset e transport owner =
     (if in_use transport
      then (headset_request_stream e, emit transport (Headset_request_stream (ptr owner)))
      else
        (let t1 = (emit transport Headset_lock)\<lparr>in_use := headset_lock e\<rparr>
         in if \<not> in_use t1 then (0, t1)
            else (headset_request_stream e, emit t1 (Headset_request_stream (ptr owner)))))"

definition resume ::
  "env \<Rightarrow> media_transport \<Rightarrow> media_owner \<Rightarrow> guint \<times> media_transport" where
  "resume e transport owner =
     (case profile transport of
        A2DP \<Rightarrow> resume_a2dp e transport owner
      | HEADSET \<Rightarrow> resume_headset e transport owner)"

definition media_owner_exit :: "media_transport \<Rightarrow> media_owner \<Rightarrow> media_transport" where
  "media_owner_exit transport owner =
     (let owner1 = owner\<lparr>watch := 0\<rparr>;
          t1 = update_owner transport (ptr owner) (\<lambda>x. x\<lparr>watch := 0\<rparr>)
      in case request owner1 of
           None \<Rightarrow> media_owner_remove t1 owner1
         | Some req \<Rightarrow>
             (case acquire_request_free t1 owner1 req of
                (t2, owner2) \<Rightarrow> media_owner_remove t2 owner2))"

definition media_transport_acquire ::
  "media_transport \<Rightarrow> string \<Rightarrow> bool \<times> media_transport" where
  "media_transport_acquire transport atype =
     (let rd = g_strstr_len atype ''r'';
          wr = g_strstr_len atype ''w''
      in if rd \<and> read_lock transport then (False, transport)
         else if wr \<and> write_lock transport then (False, transport)
         else if \<not> rd \<and> \<not> wr then (False, transport)
         else
           (let t1 = (if rd then transport\<lparr>read_lock := True\<rparr> else transport)
            in (True, if wr then t1\<lparr>write_lock := True\<rparr> else t1)))"

definition media_owner_create ::
  "env \<Rightarrow> media_transport \<Rightarrow> dbus_msg \<Rightarrow> string \<Rightarrow> media_owner \<times> media_transport" where
  "media_owner_create e transport m atype =
     (let p = new_ptr (owners transport);
          owner = \<lparr>ptr = p, name = sender m, accesstype = atype,
                   watch = g_dbus_add_disconnect_watch e, request = None\<rparr>;
          t1 = emit transport (Add_disconnect_watch (sender m) p)
      in (owner, t1\<lparr>owners := owners t1 @ [owner]\<rparr>))"

definition media_transport_find_owner ::
  "media_transport \<Rightarrow> string \<Rightarrow> media_owner option" where
  "media_transport_find_owner transport nm = find (\<lambda>x. name x = nm) (owners transport)"

definition permission_denied :: "dbus_msg \<Rightarrow> reply" where
  "permission_denied m = Error_Failed m ''Permission denied''"

definition acquire :: "env \<Rightarrow> media_transport \<Rightarrow> dbus_msg \<Rightarrow> reply option \<times> media_transport" where
  "acquire e transport m =
     (case args m of
        None \<Rightarrow> (None, transport)
      | Some atype \<Rightarrow>
          (case media_transport_find_owner transport (sender m) of
             Some owner \<Rightarrow> (Some (permission_denied m), transport)
           | None \<Rightarrow>
               (case media_transport_acquire transport atype of
                  (False, t1) \<Rightarrow> (Some (permission_denied m), t1)
                | (True, t1) \<Rightarrow>
                    (case media_owner_create e t1 m atype of
                       (owner, t2) \<Rightarrow>
                         (case resume e t2 owner of
                            (i, t3) \<Rightarrow>
                              (let req = \<lparr>msg = m, req_id = i\<rparr>;
                                   owner1 = owner\<lparr>request := Some req\<rparr>;
                                   t4 = update_owner t3 (ptr owner)
                                          (\<lambda>x. x\<lparr>request := Some req\<rparr>)
                               in (None, if i = 0 then media_owner_remove t4 owner1
                                         else t4)))))))"

definition release :: "media_transport \<Rightarrow> dbus_msg \<Rightarrow> reply option \<times> media_transport" where
  "release transport m =
     (case args m of
        None \<Rightarrow> (None, transport)
      | Some atype \<Rightarrow>
          (case media_transport_find_owner transport (sender m) of
             None \<Rightarrow> (Some (permission_denied m), transport)
           | Some owner \<Rightarrow>
               if accesstype owner = atype
               then (Some (Method_return m), media_owner_remove transport owner)
               else if g_strstr_len (accesstype owner) atype
               then (Some (Method_return m),
                     update_owner (media_transport_release transport atype) (ptr owner)
                       (\<lambda>x. x\<lparr>accesstype := g_strdelimit (accesstype x) atype CHR '' ''\<rparr>))
               else (Some (permission_denied m), transport)))"

text \<open>
  \<open>media_transport_free\<close>: \<open>g_slist_foreach\<close> reads the next node before it calls the
  function, so every owner of the list is removed in turn.
\<close>

definition media_transport_free :: "media_transport \<Rightarrow> media_transport" where
  "media_transport_free transport =
     fold (\<lambda>owner t. media_owner_remove t owner) (owners transport) transport"

text \<open>
  \<open>media_transport_create\<close> for a recognised UUID: \<open>g_new0\<close> zeroes the struct, then
  \<open>fd\<close> is set to -1 and the profile's functions are installed.
\<close>

definition media_transport_create :: "profile \<Rightarrow> media_transport" where
  "media_transport_create pr =
     \<lparr>profile = pr, session = False, owners = [], fd = - 1, imtu = 0, omtu = 0,
      delay = 0, read_lock = False, write_lock = False, in_use = False,
      effects = [], idle = []\<rparr>"

section \<open>Clients driving a transport\<close>

text \<open>
  A client leaving the bus fires the disconnect watch of every owner registered under
  its name; the watch callback is \<open>media_owner_exit\<close>.
\<close>

definition client_disconnect :: "media_transport \<Rightarrow> string \<Rightarrow> media_transport" where
  "client_disconnect transport nm =
     fold (\<lambda>owner t. media_owner_exit t owner)
       (filter (\<lambda>x. name x = nm \<and> watch x \<noteq> 0) (owners transport)) transport"

text \<open>
  The main loop runs one pending idle source: \<open>remove_owner\<close> returns FALSE, so the
  source is dropped from the queue.
\<close>

definition run_idle :: "media_transport \<Rightarrow> media_transport option" where
  "run_idle t =
     (case idle t of
        [] \<Rightarrow> Some t
      | p # ps \<Rightarrow> remove_owner (t\<lparr>idle := ps\<rparr>) p)"

text \<open>
  Everything that can happen to a transport between its creation and the end of its
  destruction: the two method calls, a client leaving the bus, a resume completing
  (for the owner at the given address, with what the profile layer reports), the main
  loop running an idle source, and \<open>media_transport_free\<close>. A callback that is handed a
  dangling owner or an owner without request has no defined behaviour in C; the run
  stops there with \<open>None\<close>.
\<close>

datatype operation =
    Acquire env dbus_msg
  | Release dbus_msg
  | Disconnect string
  | Resume_complete_a2dp bool bool "(int \<times> uint16 \<times> uint16) option" bool nat
  | Resume_complete_headset bool int bool nat
  | Idle_task
  | Destroy

fun step :: "media_transport \<Rightarrow> operation \<Rightarrow> media_transport option" where
  "step t (Acquire e m) = Some (snd (acquire e t m))"
| "step t (Release m) = Some (snd (release t m))"
| "step t (Disconnect nm) = Some (client_disconnect t nm)"
| "step t (Resume_complete_a2dp err stream stream_transport sent p) =
     a2dp_resume_complete err stream stream_transport sent t p"
| "step t (Resume_complete_headset dev sco_fd sent p) =
     headset_resume_complete dev sco_fd sent t p"
| "step t Idle_task = run_idle t"
| "step t Destroy = Some (media_transport_free t)"

fun run :: "media_transport \<Rightarrow> operation list \<Rightarrow> media_transport option" where
  "run t [] = Some t"
| "run t (op # ops) = (case step t op of None \<Rightarrow> None | Some t' \<Rightarrow> run t' ops)"

section \<open>Vocabulary for the properties\<close>

text \<open>The calls a teardown makes, written out, so that theorems can name them.\<close>

definition cancel_event :: "profile \<Rightarrow> guint \<Rightarrow> event" where
  "cancel_event pr i = (case pr of A2DP \<Rightarrow> A2dp_cancel i | HEADSET \<Rightarrow> Headset_cancel_stream i)"

definition suspend_event :: "profile \<Rightarrow> bool \<Rightarrow> event" where
  "suspend_event pr sess = (case pr of A2DP \<Rightarrow> A2dp_sep_unlock sess | HEADSET \<Rightarrow> Headset_unlock)"

definition request_events :: "profile \<Rightarrow> acquire_request \<Rightarrow> event list" where
  "request_events pr req =
     (if req_id req \<noteq> 0 then [cancel_event pr (req_id req)] else []) @ [Message_unref (msg req)]"

definition teardown_events :: "media_transport \<Rightarrow> media_owner \<Rightarrow> event list" where
  "teardown_events t owner =
     (if watch owner \<noteq> 0 then [Remove_watch (watch owner)] else []) @
     (case request owner of
        None \<Rightarrow> []
      | Some req \<Rightarrow> Send_error (msg req) strerror_EIO # request_events (profile t) req)"

text \<open>
  The owner list as \<open>media_owner_remove\<close> finds it when it unlinks the owner: freeing
  a pending request has cleared the owner's request pointer.
\<close>

definition owners_before_unlink :: "media_transport \<Rightarrow> media_owner \<Rightarrow> media_owner list" where
  "owners_before_unlink t owner =
     (case request owner of
        None \<Rightarrow> owners t
      | Some req \<Rightarrow> map (\<lambda>x. if ptr x = ptr owner then x\<lparr>request := None\<rparr> else x) (owners t))"

text \<open>Whether an owner holds read or write access: the test the lock code applies.\<close>

definition holds_read :: "media_owner \<Rightarrow> bool" where
  "holds_read owner = g_strstr_len (accesstype owner) ''r''"

definition holds_write :: "media_owner \<Rightarrow> bool" where
  "holds_write owner = g_strstr_len (accesstype owner) ''w''"

text \<open>The events a method or callback added to the trace.\<close>

definition new_effects :: "media_transport \<Rightarrow> media_transport \<Rightarrow> event list" where
  "new_effects t t' = drop (length (effects t)) (effects t')"

fun is_error_reply_to :: "dbus_msg \<Rightarrow> event \<Rightarrow> bool" where
  "is_error_reply_to m (Send_error m' txt) = (m' = m)"
| "is_error_reply_to m (Send_reply_fd m' f) = False"
| "is_error_reply_to m (Message_unref m') = False"
| "is_error_reply_to m (Add_disconnect_watch nm p) = False"
| "is_error_reply_to m (Remove_watch w) = False"
| "is_error_reply_to m (Emit_property_changed nm v) = False"
| "is_error_reply_to m Avdtp_get = False"
| "is_error_reply_to m A2dp_sep_lock = False"
| "is_error_reply_to m (A2dp_sep_unlock s) = False"
| "is_error_reply_to m (A2dp_resume p) = False"
| "is_error_reply_to m (A2dp_cancel i) = False"
| "is_error_reply_to m Headset_lock = False"
| "is_error_reply_to m Headset_unlock = False"
| "is_error_reply_to m (Headset_request_stream p) = False"
| "is_error_reply_to m (Headset_cancel_stream i) = False"

fun is_reply :: "event \<Rightarrow> bool" where
  "is_reply (Send_error m txt) = True"
| "is_reply (Send_reply_fd m f) = True"
| "is_reply (Message_unref m) = False"
| "is_reply (Add_disconnect_watch nm p) = False"
| "is_reply (Remove_watch w) = False"
| "is_reply (Emit_property_changed nm v) = False"
| "is_reply Avdtp_get = False"
| "is_reply A2dp_sep_lock = False"
| "is_reply (A2dp_sep_unlock s) = False"
| "is_reply (A2dp_resume p) = False"
| "is_reply (A2dp_cancel i) = False"
| "is_reply Headset_lock = False"
| "is_reply Headset_unlock = False"
| "is_reply (Headset_request_stream p) = False"
| "is_reply (Headset_cancel_stream i) = False"

fun is_cancel :: "event \<Rightarrow> bool" where
  "is_cancel (Send_error m txt) = False"
| "is_cancel (Send_reply_fd m f) = False"
| "is_cancel (Message_unref m) = False"
| "is_cancel (Add_disconnect_watch nm p) = False"
| "is_cancel (Remove_watch w) = False"
| "is_cancel (Emit_property_changed nm v) = False"
| "is_cancel Avdtp_get = False"
| "is_cancel A2dp_sep_lock = False"
| "is_cancel (A2dp_sep_unlock s) = False"
| "is_cancel (A2dp_resume p) = False"
| "is_cancel (A2dp_cancel i) = True"
| "is_cancel Headset_lock = False"
| "is_cancel Headset_unlock = False"
| "is_cancel (Headset_request_stream p) = False"
| "is_cancel (Headset_cancel_stream i) = True"

section \<open>Concrete clients and collaborators\<close>

text \<open>A method call of client \<open>who\<close> with one string argument.\<close>

definition client_call :: "string \<Rightarrow> string \<Rightarrow> dbus_msg" where
  "client_call who atype = \<lparr>serial = 1, sender = who, args = Some atype\<rparr>"

text \<open>Collaborators that all succeed; the resume ticket is \<open>i\<close>.\<close>

definition env_ok :: "guint \<Rightarrow> env" where
  "env_ok i =
     \<lparr>g_dbus_add_disconnect_watch = 3, avdtp_get = True, a2dp_sep_lock = True,
      a2dp_resume = i, headset_lock = True, headset_request_stream = i\<rparr>"

text \<open>A fresh transport on which one client has called \<open>Acquire\<close>.\<close>

definition acquired :: "profile \<Rightarrow> string \<Rightarrow> string \<Rightarrow> guint \<Rightarrow> media_transport" where
  "acquired pr who atype i =
     snd (acquire (env_ok i) (media_transport_create pr) (client_call who atype))"

text \<open>
  Client A has acquired \<open>rw\<close> on an A2DP transport, the resume has completed with the
  descriptor \<open>(5, 672, 672)\<close>; the owner's access string and the two locks are left
  open.
\<close>

definition scenario_owner :: "string \<Rightarrow> media_owner" where
  "scenario_owner atype =
     \<lparr>ptr = 1, name = ''A'', accesstype = atype, watch = 3,
      request = Some \<lparr>msg = client_call ''A'' ''rw'', req_id = 0\<rparr>\<rparr>"

definition scenario_transport :: "string \<Rightarrow> bool \<Rightarrow> bool \<Rightarrow> media_transport" where
  "scenario_transport atype rl wl =
     \<lparr>profile = A2DP, session = True, owners = [scenario_owner atype], fd = 5,
      imtu = 672, omtu = 672, delay = 0, read_lock = rl, write_lock = wl, in_use = True,
      effects = [Add_disconnect_watch ''A'' 1, Avdtp_get, A2dp_sep_lock, A2dp_resume 1,
                 Emit_property_changed ''IMTU'' 672, Emit_property_changed ''OMTU'' 672,
                 Send_reply_fd (client_call ''A'' ''rw'') 5],
      idle = []\<rparr>"

text \<open>Collaborators for which the signalling session cannot be had.\<close>

definition env_no_session :: env where
  "env_no_session =
     \<lparr>g_dbus_add_disconnect_watch = 3, avdtp_get = False, a2dp_sep_lock = True,
      a2dp_resume = 7, headset_lock = True, headset_request_stream = 7\<rparr>"

text \<open>
  The lock invariant: owner addresses are distinct, and each lock is set exactly when
  one owner of the list holds that access, clear exactly when none does.
\<close>

definition lock_invariant :: "media_transport \<Rightarrow> bool" where
  "lock_invariant t =
     (distinct (map ptr (owners t)) \<and>
      length (filter holds_read (owners t)) = (if read_lock t then 1 else 0) \<and>
      length (filter holds_write (owners t)) = (if write_lock t then 1 else 0))"

text \<open>
  A acquires \<open>rw\<close> on an A2DP transport, the resume completes with the descriptor
  \<open>(5, 672, 672)\<close>, A releases \<open>r\<close>; B acquires \<open>r\<close>, its resume fails and the idle
  source removes B.
\<close>

definition example_operations :: "operation list" where
  "example_operations =
     [Acquire (env_ok 7) (client_call ''A'' ''rw''),
      Resume_complete_a2dp False True (Some (5, 672, 672)) True 1,
      Release (client_call ''A'' ''r''),
      Acquire (env_ok 8) (client_call ''B'' ''r''),
      Resume_complete_a2dp True False None False 2,
      Idle_task]"

section \<open>Basic facts\<close>

lemmas model_defs =
  acquire_def release_def media_transport_create_def media_transport_find_owner_def
  media_transport_acquire_def media_owner_create_def resume_def resume_a2dp_def
  resume_headset_def emit_def update_owner_def new_ptr_def a2dp_resume_complete_def
  headset_resume_complete_def owner_at_def media_transport_set_fd_def
  g_idle_add_remove_owner_def media_transport_release_def g_strdelimit_def
  media_owner_remove_def media_owner_exit_def acquire_request_free_def cancel_def
  cancel_a2dp_def cancel_headset_def suspend_def suspend_a2dp_def suspend_headset_def
  remove_owner_def client_disconnect_def media_transport_free_def strerror_EIO_def
  permission_denied_def client_call_def env_ok_def acquired_def new_effects_def
  holds_read_def holds_write_def Let_def

lemma starts_with_iff: "starts_with h n \<longleftrightarrow> (\<exists>s. h = n @ s)"
  by (induction h n rule: starts_with.induct) auto

lemma g_strstr_len_iff: "g_strstr_len h n \<longleftrightarrow> (\<exists>p s. h = p @ n @ s)"
proof (induction h)
  case Nil
  show ?case by (simp add: starts_with_iff)
next
  case (Cons a h)
  have "(\<exists>p s. a # h = p @ n @ s) \<longleftrightarrow> (\<exists>s. a # h = n @ s) \<or> (\<exists>p s. h = p @ n @ s)"
  proof
    assume "\<exists>p s. a # h = p @ n @ s"
    then obtain p s where ps: "a # h = p @ n @ s" by blast
    show "(\<exists>s. a # h = n @ s) \<or> (\<exists>p s. h = p @ n @ s)"
    proof (cases p)
      case Nil
      with ps show ?thesis by auto
    next
      case (Cons b p')
      with ps have "h = p' @ n @ s" by simp
      then show ?thesis by blast
    qed
  next
    assume "(\<exists>s. a # h = n @ s) \<or> (\<exists>p s. h = p @ n @ s)"
    then show "\<exists>p s. a # h = p @ n @ s"
    proof
      assume "\<exists>s. a # h = n @ s"
      then obtain s where "a # h = [] @ n @ s" by auto
      then show ?thesis by blast
    next
      assume "\<exists>p s. h = p @ n @ s"
      then obtain p s where "a # h = (a # p) @ n @ s" by auto
      then show ?thesis by blast
    qed
  qed
  with Cons show ?case by (simp add: starts_with_iff)
qed

lemma g_strstr_len_char: "g_strstr_len s [c] \<longleftrightarrow> c \<in> set s"
  by (induction s) auto

lemma g_strstr_len_subset: "g_strstr_len h n \<Longrightarrow> set n \<subseteq> set h"
  by (auto simp: g_strstr_len_iff)

lemma g_strstr_len_empty: "g_strstr_len h []"
  by (cases h) simp_all

lemma fold_max_ge: "(a::nat) \<le> fold max ys a"
proof (induction ys arbitrary: a)
  case Nil show ?case by simp
next
  case (Cons y ys)
  have "a \<le> max y a" by simp
  also have "\<dots> \<le> fold max ys (max y a)" by (rule Cons.IH)
  finally show ?case by simp
qed

lemma fold_max_mem: "(y::nat) \<in> set ys \<Longrightarrow> y \<le> fold max ys a"
proof (induction ys arbitrary: a)
  case Nil then show ?case by simp
next
  case (Cons z ys)
  show ?case
  proof (cases "y = z")
    case True
    have "y \<le> max z a" using True by simp
    also have "\<dots> \<le> fold max ys (max z a)" by (rule fold_max_ge)
    finally show ?thesis by simp
  next
    case False
    with Cons show ?thesis by simp
  qed
qed

lemma new_ptr_fresh: "x \<in> set xs \<Longrightarrow> ptr x \<noteq> new_ptr xs"
proof -
  assume "x \<in> set xs"
  then have "ptr x \<in> set (map ptr xs)" by simp
  then have "ptr x \<le> fold max (map ptr xs) 0" by (rule fold_max_mem)
  then show ?thesis by (simp add: new_ptr_def)
qed

lemma distinct_ptr_Cons:
  "distinct (map ptr (x # xs)) \<Longrightarrow> \<forall>y\<in>set xs. ptr y \<noteq> ptr x"
  by (auto simp: image_iff)

lemma g_slist_remove_filter:
  "distinct (map ptr xs) \<Longrightarrow> g_slist_remove xs p = filter (\<lambda>x. ptr x \<noteq> p) xs"
proof (induction xs)
  case Nil show ?case by simp
next
  case (Cons x xs)
  show ?case
  proof (cases "ptr x = p")
    case True
    from Cons.prems have "\<forall>y\<in>set xs. ptr y \<noteq> ptr x" by (rule distinct_ptr_Cons)
    with True have "\<forall>y\<in>set xs. ptr y \<noteq> p" by simp
    then have "filter (\<lambda>x. ptr x \<noteq> p) xs = xs" by simp
    with True show ?thesis by simp
  next
    case False
    with Cons show ?thesis by simp
  qed
qed

lemma g_slist_remove_append_fresh:
  "\<forall>x\<in>set xs. ptr x \<noteq> ptr y \<Longrightarrow> g_slist_remove (xs @ [y]) (ptr y) = xs"
  by (induction xs) auto

lemma g_slist_remove_map_Nil:
  "(\<And>x. ptr (f x) = ptr x) \<Longrightarrow> g_slist_remove (map f xs) p = [] \<longleftrightarrow> g_slist_remove xs p = []"
  by (cases xs) auto

lemma g_slist_remove_update:
  "distinct (map ptr xs) \<Longrightarrow> (\<And>x. ptr (f x) = ptr x) \<Longrightarrow>
   g_slist_remove (map (\<lambda>x. if ptr x = p then f x else x) xs) p = g_slist_remove xs p"
proof (induction xs)
  case Nil show ?case by simp
next
  case (Cons x xs)
  show ?case
  proof (cases "ptr x = p")
    case True
    from Cons.prems(1) have "\<forall>y\<in>set xs. ptr y \<noteq> ptr x" by (rule distinct_ptr_Cons)
    with True have "\<forall>y\<in>set xs. ptr y \<noteq> p" by simp
    then have "map (\<lambda>x. if ptr x = p then f x else x) xs = xs" by (simp add: map_idI)
    with True Cons.prems(2) show ?thesis by simp
  next
    case False
    with Cons show ?thesis by simp
  qed
qed

lemma release_fields:
  "read_lock (media_transport_release t a) = (read_lock t \<and> \<not> g_strstr_len a ''r'')"
  "write_lock (media_transport_release t a) = (write_lock t \<and> \<not> g_strstr_len a ''w'')"
  "owners (media_transport_release t a) = owners t"
  "effects (media_transport_release t a) = effects t"
  "idle (media_transport_release t a) = idle t"
  "fd (media_transport_release t a) = fd t"
  "imtu (media_transport_release t a) = imtu t"
  "omtu (media_transport_release t a) = omtu t"
  "profile (media_transport_release t a) = profile t"
  "session (media_transport_release t a) = session t"
  "in_use (media_transport_release t a) = in_use t"
  by (simp_all add: media_transport_release_def Let_def)

lemma suspend_fields:
  "read_lock (suspend t) = read_lock t"
  "write_lock (suspend t) = write_lock t"
  "owners (suspend t) = owners t"
  "effects (suspend t) = effects t @ [suspend_event (profile t) (session t)]"
  "idle (suspend t) = idle t"
  "fd (suspend t) = fd t"
  "imtu (suspend t) = imtu t"
  "omtu (suspend t) = omtu t"
  "profile (suspend t) = profile t"
  "session (suspend t) = session t"
  "in_use (suspend t) = False"
  by (simp_all add: suspend_def suspend_a2dp_def suspend_headset_def emit_def suspend_event_def
        split: profile.splits)

lemma cancel_fields:
  "read_lock (cancel t i) = read_lock t"
  "write_lock (cancel t i) = write_lock t"
  "owners (cancel t i) = owners t"
  "effects (cancel t i) = effects t @ [cancel_event (profile t) i]"
  "idle (cancel t i) = idle t"
  "fd (cancel t i) = fd t"
  "imtu (cancel t i) = imtu t"
  "omtu (cancel t i) = omtu t"
  "profile (cancel t i) = profile t"
  "session (cancel t i) = session t"
  "in_use (cancel t i) = in_use t"
  by (simp_all add: cancel_def cancel_a2dp_def cancel_headset_def emit_def cancel_event_def
        split: profile.splits)

lemma acquire_request_free_fields:
  "read_lock (fst (acquire_request_free t owner req)) = read_lock t"
  "write_lock (fst (acquire_request_free t owner req)) = write_lock t"
  "owners (fst (acquire_request_free t owner req)) =
     map (\<lambda>x. if ptr x = ptr owner then x\<lparr>request := None\<rparr> else x) (owners t)"
  "effects (fst (acquire_request_free t owner req)) = effects t @ request_events (profile t) req"
  "idle (fst (acquire_request_free t owner req)) = idle t"
  "fd (fst (acquire_request_free t owner req)) = fd t"
  "imtu (fst (acquire_request_free t owner req)) = imtu t"
  "omtu (fst (acquire_request_free t owner req)) = omtu t"
  "profile (fst (acquire_request_free t owner req)) = profile t"
  "session (fst (acquire_request_free t owner req)) = session t"
  "in_use (fst (acquire_request_free t owner req)) = in_use t"
  "snd (acquire_request_free t owner req) = owner\<lparr>request := None\<rparr>"
  by (simp_all add: acquire_request_free_def Let_def emit_def update_owner_def cancel_fields
        request_events_def)

lemma media_owner_remove_fields:
  "read_lock (media_owner_remove t owner) = (read_lock t \<and> \<not> g_strstr_len (accesstype owner) ''r'')"
  "write_lock (media_owner_remove t owner) = (write_lock t \<and> \<not> g_strstr_len (accesstype owner) ''w'')"
  "owners (media_owner_remove t owner) = g_slist_remove (owners_before_unlink t owner) (ptr owner)"
  "idle (media_owner_remove t owner) = idle t"
  "fd (media_owner_remove t owner) = fd t"
  "imtu (media_owner_remove t owner) = imtu t"
  "omtu (media_owner_remove t owner) = omtu t"
  "profile (media_owner_remove t owner) = profile t"
  "session (media_owner_remove t owner) = session t"
  by (simp_all add: media_owner_remove_def Let_def emit_def release_fields suspend_fields
        acquire_request_free_fields owners_before_unlink_def split: option.splits)

lemma media_owner_remove_effects:
  "effects (media_owner_remove t owner) =
     effects t @ teardown_events t owner @
     (if g_slist_remove (owners t) (ptr owner) = [] then [suspend_event (profile t) (session t)] else [])"
proof -
  have nil: "g_slist_remove (map (\<lambda>x. if ptr x = ptr owner then x\<lparr>request := None\<rparr> else x) (owners t)) (ptr owner) = []
     \<longleftrightarrow> g_slist_remove (owners t) (ptr owner) = []"
    by (rule g_slist_remove_map_Nil) simp
  show ?thesis
    by (simp add: media_owner_remove_def Let_def emit_def release_fields suspend_fields
        acquire_request_free_fields teardown_events_def nil split: option.splits)
qed

lemma media_owner_remove_in_use:
  "in_use (media_owner_remove t owner) =
     (in_use t \<and> g_slist_remove (owners t) (ptr owner) \<noteq> [])"
proof -
  have nil: "g_slist_remove (map (\<lambda>x. if ptr x = ptr owner then x\<lparr>request := None\<rparr> else x) (owners t)) (ptr owner) = []
     \<longleftrightarrow> g_slist_remove (owners t) (ptr owner) = []"
    by (rule g_slist_remove_map_Nil) simp
  show ?thesis
    by (simp add: media_owner_remove_def Let_def emit_def release_fields suspend_fields
        acquire_request_free_fields nil split: option.splits)
qed

lemma media_transport_acquire_invalid:
  "\<not> g_strstr_len atype ''r'' \<Longrightarrow> \<not> g_strstr_len atype ''w'' \<Longrightarrow>
   media_transport_acquire transport atype = (False, transport)"
  by (simp add: media_transport_acquire_def)

lemma find_Some_mem: "find P xs = Some x \<Longrightarrow> x \<in> set xs \<and> P x"
  by (induction xs) (auto split: if_splits)

lemma update_owner_id: "(\<And>x. x \<in> set (owners t) \<Longrightarrow> f x = x) \<Longrightarrow> update_owner t p f = t"
  by (simp add: update_owner_def map_idI)

lemma g_strdelimit_Nil: "g_strdelimit s [] c = s"
  by (simp add: g_strdelimit_def)

lemma media_transport_acquire_fields:
  "owners (snd (media_transport_acquire t a)) = owners t"
  "effects (snd (media_transport_acquire t a)) = effects t"
  "idle (snd (media_transport_acquire t a)) = idle t"
  "fd (snd (media_transport_acquire t a)) = fd t"
  "imtu (snd (media_transport_acquire t a)) = imtu t"
  "omtu (snd (media_transport_acquire t a)) = omtu t"
  "profile (snd (media_transport_acquire t a)) = profile t"
  "session (snd (media_transport_acquire t a)) = session t"
  "in_use (snd (media_transport_acquire t a)) = in_use t"
  by (simp_all add: media_transport_acquire_def Let_def)

lemma media_transport_acquire_locks:
  assumes "fst (media_transport_acquire t a)"
  shows "read_lock (snd (media_transport_acquire t a)) = (read_lock t \<or> g_strstr_len a ''r'')"
    and "write_lock (snd (media_transport_acquire t a)) = (write_lock t \<or> g_strstr_len a ''w'')"
    and "g_strstr_len a ''r'' \<longrightarrow> \<not> read_lock t"
    and "g_strstr_len a ''w'' \<longrightarrow> \<not> write_lock t"
    and "g_strstr_len a ''r'' \<or> g_strstr_len a ''w''"
  using assms by (auto simp: media_transport_acquire_def Let_def split: if_splits)

lemma media_transport_acquire_fails:
  "media_transport_acquire t a = (False, t') \<Longrightarrow> t' = t"
  by (simp add: media_transport_acquire_def Let_def split: if_splits)

lemma resume_fields:
  "read_lock (snd (resume e t owner)) = read_lock t"
  "write_lock (snd (resume e t owner)) = write_lock t"
  "owners (snd (resume e t owner)) = owners t"
  "idle (snd (resume e t owner)) = idle t"
  "fd (snd (resume e t owner)) = fd t"
  "imtu (snd (resume e t owner)) = imtu t"
  "omtu (snd (resume e t owner)) = omtu t"
  "profile (snd (resume e t owner)) = profile t"
  by (simp_all add: resume_def resume_a2dp_def resume_headset_def emit_def Let_def
        split: profile.splits)

lemma media_owner_create_fields:
  "read_lock (snd (media_owner_create e t m a)) = read_lock t"
  "write_lock (snd (media_owner_create e t m a)) = write_lock t"
  "owners (snd (media_owner_create e t m a)) = owners t @ [fst (media_owner_create e t m a)]"
  "effects (snd (media_owner_create e t m a)) = effects t @ [Add_disconnect_watch (sender m) (new_ptr (owners t))]"
  "idle (snd (media_owner_create e t m a)) = idle t"
  "fd (snd (media_owner_create e t m a)) = fd t"
  "imtu (snd (media_owner_create e t m a)) = imtu t"
  "omtu (snd (media_owner_create e t m a)) = omtu t"
  "profile (snd (media_owner_create e t m a)) = profile t"
  "session (snd (media_owner_create e t m a)) = session t"
  "in_use (snd (media_owner_create e t m a)) = in_use t"
  "fst (media_owner_create e t m a) =
     \<lparr>ptr = new_ptr (owners t), name = sender m, accesstype = a,
      watch = g_dbus_add_disconnect_watch e, request = None\<rparr>"
  by (simp_all add: media_owner_create_def emit_def Let_def)

lemma update_owner_fields:
  "read_lock (update_owner t p f) = read_lock t"
  "write_lock (update_owner t p f) = write_lock t"
  "owners (update_owner t p f) = map (\<lambda>x. if ptr x = p then f x else x) (owners t)"
  "effects (update_owner t p f) = effects t"
  "idle (update_owner t p f) = idle t"
  "fd (update_owner t p f) = fd t"
  "imtu (update_owner t p f) = imtu t"
  "omtu (update_owner t p f) = omtu t"
  "profile (update_owner t p f) = profile t"
  "session (update_owner t p f) = session t"
  "in_use (update_owner t p f) = in_use t"
  by (simp_all add: update_owner_def)

lemma map_update_other:
  "\<forall>x\<in>set xs. ptr x \<noteq> p \<Longrightarrow> map (\<lambda>x. if ptr x = p then f x else x) xs = xs"
  by (simp add: map_idI)

lemma resume_effects:
  "\<exists>xs. effects (snd (resume e t owner)) = effects t @ xs \<and>
        (\<forall>x\<in>set xs. \<not> is_reply x \<and> \<not> is_cancel x)"
  by (simp add: resume_def resume_a2dp_def resume_headset_def emit_def Let_def
        split: profile.splits)

lemma acquire_passed:
  assumes "args m = Some atype"
    and "media_transport_find_owner transport (sender m) = None"
    and "media_transport_acquire transport atype = (True, t1)"
  shows "acquire e transport m =
     (let owner = fst (media_owner_create e t1 m atype);
          t2 = snd (media_owner_create e t1 m atype);
          i = fst (resume e t2 owner);
          t3 = snd (resume e t2 owner);
          req = \<lparr>msg = m, req_id = i\<rparr>;
          t4 = update_owner t3 (ptr owner) (\<lambda>x. x\<lparr>request := Some req\<rparr>)
      in (None, if i = 0 then media_owner_remove t4 (owner\<lparr>request := Some req\<rparr>) else t4))"
  using assms by (simp add: acquire_def Let_def split: prod.splits)

lemma new_effects_append: "effects t' = effects t @ xs \<Longrightarrow> new_effects t t' = xs"
  by (simp add: new_effects_def)

lemma event_kinds:
  "\<not> is_reply (suspend_event pr s)" "\<not> is_cancel (suspend_event pr s)"
  "\<not> is_reply (cancel_event pr i)" "is_cancel (cancel_event pr i)"
  by (simp_all add: suspend_event_def cancel_event_def split: profile.splits)

lemma filter_request_events:
  "filter is_reply (request_events pr req) = []"
  "filter is_cancel (request_events pr req) =
     (if req_id req = 0 then [] else [cancel_event pr (req_id req)])"
  by (simp_all add: request_events_def event_kinds)

lemma media_owner_exit_fields:
  "read_lock (media_owner_exit t owner) = (read_lock t \<and> \<not> g_strstr_len (accesstype owner) ''r'')"
  "write_lock (media_owner_exit t owner) = (write_lock t \<and> \<not> g_strstr_len (accesstype owner) ''w'')"
  "idle (media_owner_exit t owner) = idle t"
  "fd (media_owner_exit t owner) = fd t"
  "imtu (media_owner_exit t owner) = imtu t"
  "omtu (media_owner_exit t owner) = omtu t"
  "profile (media_owner_exit t owner) = profile t"
  "session (media_owner_exit t owner) = session t"
  by (simp_all add: media_owner_exit_def Let_def case_prod_unfold media_owner_remove_fields
        acquire_request_free_fields update_owner_fields split: option.splits)

lemma media_owner_exit_owners:
  "owners (media_owner_exit t owner) =
     g_slist_remove
       (map (\<lambda>x. if ptr x = ptr owner then x\<lparr>watch := 0, request := (case request owner of None \<Rightarrow> request x | Some r \<Rightarrow> None)\<rparr> else x)
          (owners t)) (ptr owner)"
  by (simp add: media_owner_exit_def Let_def case_prod_unfold media_owner_remove_fields
        acquire_request_free_fields update_owner_fields owners_before_unlink_def o_def
        if_distrib cong: if_cong split: option.splits)

lemma media_owner_exit_effects:
  "effects (media_owner_exit t owner) =
     effects t @
     (case request owner of None \<Rightarrow> [] | Some req \<Rightarrow> request_events (profile t) req) @
     (if g_slist_remove (owners t) (ptr owner) = []
      then [suspend_event (profile t) (session t)] else [])"
  by (simp add: media_owner_exit_def Let_def case_prod_unfold media_owner_remove_effects
        acquire_request_free_fields update_owner_fields teardown_events_def
        g_slist_remove_map_Nil split: option.splits)

lemma g_slist_remove_fresh_last:
  assumes "\<forall>x\<in>set xs. ptr x \<noteq> p" and "ptr y = p"
  shows "g_slist_remove (map (\<lambda>x. if ptr x = p then f x else x) (xs @ [y])) p =
         (if ptr (f y) = p then xs else xs @ [f y])"
  using assms by (induction xs) auto

lemma find_None_iff_ptr: "find (\<lambda>x. ptr x = p) xs = None \<longleftrightarrow> (\<forall>x\<in>set xs. ptr x \<noteq> p)"
  by (induction xs) auto

lemma distinct_map_update:
  "(\<And>x. ptr (f x) = ptr x) \<Longrightarrow>
   map ptr (map (\<lambda>x. if ptr x = p then f x else x) xs) = map ptr xs"
  by (induction xs) auto

lemma ptr_comp_update:
  "(\<And>x. ptr (f x) = ptr x) \<Longrightarrow> (ptr \<circ> (\<lambda>x. if ptr x = p then f x else x)) = ptr"
  by (auto simp: fun_eq_iff)

lemma g_slist_remove_unlinked:
  "distinct (map ptr xs) \<Longrightarrow> \<forall>x\<in>set (g_slist_remove xs p). ptr x \<noteq> p"
  by (simp add: g_slist_remove_filter)

lemma media_owner_remove_unlinked:
  assumes "distinct (map ptr (owners t))"
  shows "owner_at (media_owner_remove t owner) (ptr owner) = None"
proof -
  have "distinct (map ptr (owners_before_unlink t owner))"
    using assms by (simp add: owners_before_unlink_def ptr_comp_update split: option.splits)
  then show ?thesis
    unfolding owner_at_def find_None_iff_ptr media_owner_remove_fields(3)
    by (rule g_slist_remove_unlinked)
qed

lemma media_owner_exit_unlinked:
  assumes "distinct (map ptr (owners t))"
  shows "owner_at (media_owner_exit t owner) (ptr owner) = None"
proof -
  have "distinct (map ptr (map (\<lambda>x. if ptr x = ptr owner
      then x\<lparr>watch := 0, request := (case request owner of None \<Rightarrow> request x | Some r \<Rightarrow> None)\<rparr>
      else x) (owners t)))"
    using assms by (simp add: ptr_comp_update)
  then show ?thesis
    unfolding owner_at_def find_None_iff_ptr media_owner_exit_owners
    by (rule g_slist_remove_unlinked)
qed

lemma find_map_update:
  "(\<And>x. ptr (f x) = ptr x) \<Longrightarrow>
   find (\<lambda>x. ptr x = p) (map (\<lambda>x. if ptr x = p then f x else x) xs) =
     map_option f (find (\<lambda>x. ptr x = p) xs)"
  by (induction xs) auto

lemma media_transport_set_fd_fields:
  "read_lock (media_transport_set_fd t f i o') = read_lock t"
  "write_lock (media_transport_set_fd t f i o') = write_lock t"
  "owners (media_transport_set_fd t f i o') = owners t"
  "idle (media_transport_set_fd t f i o') = idle t"
  "profile (media_transport_set_fd t f i o') = profile t"
  "session (media_transport_set_fd t f i o') = session t"
  "in_use (media_transport_set_fd t f i o') = in_use t"
  by (simp_all add: media_transport_set_fd_def emit_def Let_def)

lemma media_transport_set_fd_effects:
  "effects (media_transport_set_fd t f i o') =
     effects t @ (if fd t = f then []
                  else [Emit_property_changed ''IMTU'' i, Emit_property_changed ''OMTU'' o'])"
  by (simp add: media_transport_set_fd_def emit_def Let_def)

lemma error_reply_kinds:
  "\<not> is_error_reply_to m (suspend_event pr s)"
  "\<not> is_error_reply_to m (cancel_event pr i)"
  "filter (is_error_reply_to m) (request_events pr req) = []"
  by (simp_all add: suspend_event_def cancel_event_def request_events_def split: profile.splits)

lemma idle_acquire: "idle (snd (acquire e t m)) = idle t"
  by (simp add: acquire_def Let_def case_prod_unfold media_owner_remove_fields
      update_owner_fields resume_fields media_owner_create_fields
      media_transport_acquire_fields split: option.splits bool.splits)

lemma idle_release: "idle (snd (release t m)) = idle t"
  by (simp add: release_def media_owner_remove_fields update_owner_fields release_fields
      split: option.splits)

lemma idle_fold_exit: "idle (fold (\<lambda>owner t. media_owner_exit t owner) xs t) = idle t"
  by (induction xs arbitrary: t) (simp_all add: media_owner_exit_fields)

lemma idle_fold_remove: "idle (fold (\<lambda>owner t. media_owner_remove t owner) xs t) = idle t"
  by (induction xs arbitrary: t) (simp_all add: media_owner_remove_fields)

lemma a2dp_resume_complete_fails:
  assumes at: "owner_at transport p = Some owner"
    and rq: "request owner = Some req"
    and fails: "err \<or> \<not> stream \<or> stream_transport = None \<or> \<not> sent"
  shows "\<exists>t'. a2dp_resume_complete err stream stream_transport sent transport p = Some t' \<and>
          idle t' = idle transport @ [p] \<and>
          owner_at t' p = Some (owner\<lparr>request := Some (req\<lparr>req_id := 0\<rparr>)\<rparr>) \<and>
          read_lock t' = read_lock transport \<and>
          write_lock t' = write_lock transport \<and>
          filter (is_error_reply_to (msg req)) (new_effects transport t') = []"
proof -
  define t1 where "t1 = update_owner transport p (\<lambda>x. x\<lparr>request := Some (req\<lparr>req_id := 0\<rparr>)\<rparr>)"
  have at1: "owner_at t1 p = Some (owner\<lparr>request := Some (req\<lparr>req_id := 0\<rparr>)\<rparr>)"
    using at by (simp add: owner_at_def t1_def update_owner_fields find_map_update)
  have f1: "idle t1 = idle transport" "read_lock t1 = read_lock transport"
    "write_lock t1 = write_lock transport" "effects t1 = effects transport"
    by (simp_all add: t1_def update_owner_fields)
  show ?thesis
  proof (cases "err \<or> \<not> stream \<or> stream_transport = None")
    case True
    then have "a2dp_resume_complete err stream stream_transport sent transport p =
        Some (g_idle_add_remove_owner t1 p)"
      using at rq by (auto simp: a2dp_resume_complete_def Let_def t1_def)
    moreover have "owner_at (g_idle_add_remove_owner t1 p) p = owner_at t1 p"
      by (simp add: owner_at_def g_idle_add_remove_owner_def)
    ultimately show ?thesis
      using at1 f1 by (simp add: g_idle_add_remove_owner_def new_effects_def)
  next
    case False
    then obtain f i o' where st: "stream_transport = Some (f, i, o')"
      by (cases stream_transport) auto
    define t3 where "t3 = emit (media_transport_set_fd t1 f i o') (Send_reply_fd (msg req) f)"
    from False fails have ns: "\<not> sent" by auto
    have "a2dp_resume_complete err stream stream_transport sent transport p =
        Some (g_idle_add_remove_owner t3 p)"
      using at rq False ns st by (simp add: a2dp_resume_complete_def Let_def t1_def t3_def)
    moreover have "owner_at (g_idle_add_remove_owner t3 p) p = owner_at t1 p"
      by (simp add: owner_at_def g_idle_add_remove_owner_def t3_def emit_def
          media_transport_set_fd_fields)
    moreover have "effects t3 = effects transport @
        ((if fd t1 = f then []
          else [Emit_property_changed ''IMTU'' i, Emit_property_changed ''OMTU'' o']) @
         [Send_reply_fd (msg req) f])"
      by (simp add: t3_def emit_def media_transport_set_fd_effects f1)
    then have "filter (is_error_reply_to (msg req)) (new_effects transport t3) = []"
      by (simp add: new_effects_def)
    moreover have "new_effects transport (g_idle_add_remove_owner t3 p) = new_effects transport t3"
      by (simp add: new_effects_def g_idle_add_remove_owner_def)
    ultimately show ?thesis
      using at1 f1
      by (simp add: g_idle_add_remove_owner_def t3_def emit_def media_transport_set_fd_fields)
  qed
qed

lemma headset_resume_complete_fails:
  assumes at: "owner_at transport p = Some owner"
    and rq: "request owner = Some req"
    and d: "distinct (map ptr (owners transport))"
    and fails: "\<not> dev \<or> sco_fd < 0 \<or> \<not> sent"
  shows "\<exists>t'. headset_resume_complete dev sco_fd sent transport p = Some t' \<and>
          idle t' = idle transport \<and>
          owner_at t' p = None \<and>
          filter (is_error_reply_to (msg req)) (new_effects transport t') =
            [Send_error (msg req) strerror_EIO]"
proof -
  define req0 where "req0 = req\<lparr>req_id := 0\<rparr>"
  define owner0 where "owner0 = owner\<lparr>request := Some req0\<rparr>"
  define t1 where "t1 = update_owner transport p (\<lambda>x. x\<lparr>request := Some req0\<rparr>)"
  define t3 where "t3 = emit (media_transport_set_fd t1 sco_fd 48 48) (Send_reply_fd (msg req0) sco_fd)"
  have p: "ptr owner0 = p"
    using at find_Some_mem [of "\<lambda>x. ptr x = p" "owners transport" owner]
    by (simp add: owner_at_def owner0_def)
  have d1: "distinct (map ptr (owners t1))"
    using d by (simp add: t1_def update_owner_fields ptr_comp_update)
  have d3: "distinct (map ptr (owners t3))"
    using d1 by (simp add: t3_def emit_def media_transport_set_fd_fields)
  have f1: "idle t1 = idle transport" "effects t1 = effects transport"
    by (simp_all add: t1_def update_owner_fields)
  have f3: "idle t3 = idle transport"
    by (simp add: t3_def emit_def media_transport_set_fd_fields f1)
  have e3: "effects t3 = effects transport @
        ((if fd t1 = sco_fd then []
          else [Emit_property_changed ''IMTU'' 48, Emit_property_changed ''OMTU'' 48]) @
         [Send_reply_fd (msg req0) sco_fd])"
    by (simp add: t3_def emit_def media_transport_set_fd_effects f1)
  have td: "\<And>t. filter (is_error_reply_to (msg req)) (teardown_events t owner0) =
      [Send_error (msg req) strerror_EIO]"
    by (simp add: teardown_events_def owner0_def req0_def error_reply_kinds)
  have r1: "filter (is_error_reply_to (msg req)) (new_effects transport (media_owner_remove t1 owner0)) =
      [Send_error (msg req) strerror_EIO]"
    by (simp add: new_effects_def media_owner_remove_effects f1 td error_reply_kinds)
  have r3: "filter (is_error_reply_to (msg req)) (new_effects transport (media_owner_remove t3 owner0)) =
      [Send_error (msg req) strerror_EIO]"
    by (simp add: new_effects_def media_owner_remove_effects e3 td error_reply_kinds)
  have u1: "owner_at (media_owner_remove t1 owner0) p = None"
    using media_owner_remove_unlinked [OF d1, of owner0] by (simp add: p)
  have u3: "owner_at (media_owner_remove t3 owner0) p = None"
    using media_owner_remove_unlinked [OF d3, of owner0] by (simp add: p)
  have "headset_resume_complete dev sco_fd sent transport p =
      Some (if \<not> dev \<or> sco_fd < 0 then media_owner_remove t1 owner0
            else media_owner_remove t3 owner0)"
    using at rq fails
    by (auto simp: headset_resume_complete_def Let_def req0_def owner0_def t1_def t3_def)
  then show ?thesis
    using r1 r3 u1 u3 f1 f3 by (simp add: media_owner_remove_fields)
qed

lemma remove_owner_runs:
  "owner_at t p = Some owner \<Longrightarrow> remove_owner t p = Some (media_owner_remove t owner)"
  by (simp add: remove_owner_def)

lemma same_ptr_same_owner:
  "distinct (map ptr xs) \<Longrightarrow> x \<in> set xs \<Longrightarrow> y \<in> set xs \<Longrightarrow> ptr x = ptr y \<Longrightarrow> x = y"
  by (induction xs) (auto simp: image_iff)

lemma count_g_slist_remove:
  "distinct (map ptr xs) \<Longrightarrow> x \<in> set xs \<Longrightarrow>
   length (filter P (g_slist_remove xs (ptr x))) + (if P x then 1 else 0) = length (filter P xs)"
proof (induction xs)
  case Nil then show ?case by simp
next
  case (Cons y ys)
  show ?case
  proof (cases "ptr y = ptr x")
    case True
    have "x = y"
      by (rule same_ptr_same_owner [OF Cons.prems(1) Cons.prems(2) _ True [symmetric]]) simp
    with True show ?thesis by simp
  next
    case False
    with Cons show ?thesis by auto
  qed
qed

lemma distinct_g_slist_remove:
  "distinct (map ptr xs) \<Longrightarrow> distinct (map ptr (g_slist_remove xs p))"
  by (simp add: g_slist_remove_filter distinct_map_filter)

lemma count_map_update:
  "distinct (map ptr xs) \<Longrightarrow> x \<in> set xs \<Longrightarrow>
   length (filter P (map (\<lambda>y. if ptr y = ptr x then f y else y) xs)) + (if P x then 1 else 0) =
   length (filter P xs) + (if P (f x) then 1 else 0)"
proof (induction xs)
  case Nil then show ?case by simp
next
  case (Cons y ys)
  show ?case
  proof (cases "ptr y = ptr x")
    case True
    have xy: "x = y"
      by (rule same_ptr_same_owner [OF Cons.prems(1) Cons.prems(2) _ True [symmetric]]) simp
    from Cons.prems(1) have "\<forall>z\<in>set ys. ptr z \<noteq> ptr y" by (rule distinct_ptr_Cons)
    then have "map (\<lambda>z. if ptr z = ptr y then f z else z) ys = ys"
      by (simp add: map_idI)
    with xy show ?thesis by simp
  next
    case False
    with Cons show ?thesis by auto
  qed
qed

lemma media_owner_remove_owners_distinct:
  "distinct (map ptr (owners t)) \<Longrightarrow>
   owners (media_owner_remove t owner) = g_slist_remove (owners t) (ptr owner)"
  by (simp add: media_owner_remove_fields owners_before_unlink_def g_slist_remove_update
      split: option.splits)

lemma media_owner_exit_owners_distinct:
  "distinct (map ptr (owners t)) \<Longrightarrow>
   owners (media_owner_exit t owner) = g_slist_remove (owners t) (ptr owner)"
  unfolding media_owner_exit_owners by (rule g_slist_remove_update) simp_all

lemma lock_invariant_unlink:
  assumes inv: "lock_invariant t"
    and x: "x \<in> set (owners t)"
    and o: "owners t' = g_slist_remove (owners t) (ptr x)"
    and r: "read_lock t' = (read_lock t \<and> \<not> holds_read x)"
    and w: "write_lock t' = (write_lock t \<and> \<not> holds_write x)"
  shows "lock_invariant t'"
proof -
  from inv have d: "distinct (map ptr (owners t))"
    and cr: "length (filter holds_read (owners t)) = (if read_lock t then 1 else 0)"
    and cw: "length (filter holds_write (owners t)) = (if write_lock t then 1 else 0)"
    by (simp_all add: lock_invariant_def)
  have "length (filter holds_read (owners t')) + (if holds_read x then 1 else 0) =
      (if read_lock t then 1 else 0)"
    using count_g_slist_remove [OF d x, of holds_read] by (simp add: o cr)
  then have 1: "length (filter holds_read (owners t')) = (if read_lock t' then 1 else 0)"
    by (auto simp: r split: if_splits)
  have "length (filter holds_write (owners t')) + (if holds_write x then 1 else 0) =
      (if write_lock t then 1 else 0)"
    using count_g_slist_remove [OF d x, of holds_write] by (simp add: o cw)
  then have 2: "length (filter holds_write (owners t')) = (if write_lock t' then 1 else 0)"
    by (auto simp: w split: if_splits)
  from d have "distinct (map ptr (owners t'))"
    by (simp add: o distinct_g_slist_remove)
  with 1 2 show ?thesis by (simp add: lock_invariant_def)
qed

lemma lock_invariant_remove:
  assumes inv: "lock_invariant t"
    and x: "x \<in> set (owners t)"
    and p: "ptr x = ptr owner" and a: "accesstype x = accesstype owner"
  shows "lock_invariant (media_owner_remove t owner)"
proof (rule lock_invariant_unlink [OF inv x])
  from inv have d: "distinct (map ptr (owners t))" by (simp add: lock_invariant_def)
  show "owners (media_owner_remove t owner) = g_slist_remove (owners t) (ptr x)"
    by (simp add: media_owner_remove_owners_distinct [OF d] p)
  show "read_lock (media_owner_remove t owner) = (read_lock t \<and> \<not> holds_read x)"
    by (simp add: media_owner_remove_fields holds_read_def a)
  show "write_lock (media_owner_remove t owner) = (write_lock t \<and> \<not> holds_write x)"
    by (simp add: media_owner_remove_fields holds_write_def a)
qed

lemma lock_invariant_exit:
  assumes inv: "lock_invariant t"
    and x: "x \<in> set (owners t)"
    and p: "ptr x = ptr owner" and a: "accesstype x = accesstype owner"
  shows "lock_invariant (media_owner_exit t owner)"
proof (rule lock_invariant_unlink [OF inv x])
  from inv have d: "distinct (map ptr (owners t))" by (simp add: lock_invariant_def)
  show "owners (media_owner_exit t owner) = g_slist_remove (owners t) (ptr x)"
    by (simp add: media_owner_exit_owners_distinct [OF d] p)
  show "read_lock (media_owner_exit t owner) = (read_lock t \<and> \<not> holds_read x)"
    by (simp add: media_owner_exit_fields holds_read_def a)
  show "write_lock (media_owner_exit t owner) = (write_lock t \<and> \<not> holds_write x)"
    by (simp add: media_owner_exit_fields holds_write_def a)
qed

lemma lock_invariant_create: "lock_invariant (media_transport_create pr)"
  by (simp add: lock_invariant_def media_transport_create_def)

lemma mem_g_strdelimit:
  "c \<noteq> d \<Longrightarrow> c \<in> set (g_strdelimit s a d) \<longleftrightarrow> c \<in> set s \<and> c \<notin> set a"
  by (auto simp: g_strdelimit_def image_iff split: if_splits)

lemma lock_invariant_acquire:
  assumes inv: "lock_invariant t"
  shows "lock_invariant (snd (acquire e t m))"
proof (cases "args m")
  case None
  with inv show ?thesis by (simp add: acquire_def)
next
  case (Some atype)
  show ?thesis
  proof (cases "media_transport_find_owner t (sender m)")
    case (Some owner)
    with \<open>args m = Some atype\<close> inv show ?thesis by (simp add: acquire_def)
  next
    case None
    obtain b t1 where q: "media_transport_acquire t atype = (b, t1)"
      by (cases "media_transport_acquire t atype")
    show ?thesis
    proof (cases b)
      case False
      with q have "t1 = t" by (simp add: media_transport_acquire_fails)
      with False q None \<open>args m = Some atype\<close> inv show ?thesis
        by (simp add: acquire_def)
    next
      case True
      with q have q': "media_transport_acquire t atype = (True, t1)" by simp
      have q1: "fst (media_transport_acquire t atype)"
        and q2: "snd (media_transport_acquire t atype) = t1"
        using q' by simp_all
      note f1 = media_transport_acquire_fields [of t atype, unfolded q2]
      note l1 = media_transport_acquire_locks [OF q1, unfolded q2]
      define owner where "owner = fst (media_owner_create e t1 m atype)"
      define t2 where "t2 = snd (media_owner_create e t1 m atype)"
      define i where "i = fst (resume e t2 owner)"
      define t3 where "t3 = snd (resume e t2 owner)"
      define req where "req = \<lparr>msg = m, req_id = i\<rparr>"
      define t4 where "t4 = update_owner t3 (ptr owner) (\<lambda>x. x\<lparr>request := Some req\<rparr>)"
      define owner1 where "owner1 = owner\<lparr>request := Some req\<rparr>"
      have res: "snd (acquire e t m) = (if i = 0 then media_owner_remove t4 owner1 else t4)"
        by (simp add: acquire_passed [OF \<open>args m = Some atype\<close> None q'] Let_def owner_def
            t2_def i_def t3_def req_def t4_def owner1_def)
      have owner: "owner = \<lparr>ptr = new_ptr (owners t), name = sender m, accesstype = atype,
          watch = g_dbus_add_disconnect_watch e, request = None\<rparr>"
        unfolding owner_def by (simp add: media_owner_create_fields f1)
      have fresh: "\<forall>x\<in>set (owners t). ptr x \<noteq> new_ptr (owners t)"
        using new_ptr_fresh by auto
      have own2: "owners t2 = owners t @ [owner]"
        by (simp add: t2_def owner_def media_owner_create_fields(3) f1)
      have p: "ptr owner = new_ptr (owners t)" by (simp add: owner)
      have own4: "owners t4 = owners t @ [owner1]"
        using fresh
        by (simp add: t4_def t3_def update_owner_fields resume_fields own2 p map_update_other
            owner1_def)
      have l4: "read_lock t4 = (read_lock t \<or> g_strstr_len atype ''r'')"
        "write_lock t4 = (write_lock t \<or> g_strstr_len atype ''w'')"
        by (simp_all add: t4_def t3_def t2_def update_owner_fields resume_fields
            media_owner_create_fields l1)
      have h: "holds_read owner1 = g_strstr_len atype ''r''"
        "holds_write owner1 = g_strstr_len atype ''w''"
        by (simp_all add: holds_read_def holds_write_def owner1_def owner)
      from inv have d: "distinct (map ptr (owners t))"
        and cr: "length (filter holds_read (owners t)) = (if read_lock t then 1 else 0)"
        and cw: "length (filter holds_write (owners t)) = (if write_lock t then 1 else 0)"
        by (simp_all add: lock_invariant_def)
      have d4: "distinct (map ptr (owners t4))"
        using d fresh by (auto simp: own4 owner1_def p)
      have r4: "length (filter holds_read (owners t4)) = (if read_lock t4 then 1 else 0)"
        using l1(3) by (simp add: own4 h l4 cr)
      have w4: "length (filter holds_write (owners t4)) = (if write_lock t4 then 1 else 0)"
        using l1(4) by (simp add: own4 h l4 cw)
      have inv4: "lock_invariant t4"
        using d4 r4 w4 by (simp add: lock_invariant_def)
      have "owner1 \<in> set (owners t4)" by (simp add: own4)
      then have "lock_invariant (media_owner_remove t4 owner1)"
        by (rule lock_invariant_remove [OF inv4]) simp_all
      with inv4 res show ?thesis by simp
    qed
  qed
qed

lemma lock_invariant_release:
  assumes inv: "lock_invariant t"
  shows "lock_invariant (snd (release t m))"
proof (cases "args m")
  case None
  with inv show ?thesis by (simp add: release_def)
next
  case (Some atype)
  note a = this
  show ?thesis
  proof (cases "media_transport_find_owner t (sender m)")
    case None
    with a inv show ?thesis by (simp add: release_def)
  next
    case (Some owner)
    then have x: "owner \<in> set (owners t)"
      using find_Some_mem [of "\<lambda>x. name x = sender m" "owners t" owner]
      by (simp add: media_transport_find_owner_def)
    show ?thesis
    proof (cases "accesstype owner = atype")
      case True
      have "lock_invariant (media_owner_remove t owner)"
        by (rule lock_invariant_remove [OF inv x]) simp_all
      with a Some True show ?thesis by (simp add: release_def)
    next
      case False
      note ne = this
      show ?thesis
      proof (cases "g_strstr_len (accesstype owner) atype")
        case False
        with a Some ne inv show ?thesis by (simp add: release_def)
      next
        case True
        define f :: "media_owner \<Rightarrow> media_owner"
          where "f = (\<lambda>x. x\<lparr>accesstype := g_strdelimit (accesstype x) atype CHR '' ''\<rparr>)"
        define t' where "t' = update_owner (media_transport_release t atype) (ptr owner) f"
        have res: "snd (release t m) = t'"
          using a Some ne True by (simp add: release_def t'_def f_def)
        from True have sub: "set atype \<subseteq> set (accesstype owner)"
          by (rule g_strstr_len_subset)
        from inv have d: "distinct (map ptr (owners t))"
          and cr: "length (filter holds_read (owners t)) = (if read_lock t then 1 else 0)"
          and cw: "length (filter holds_write (owners t)) = (if write_lock t then 1 else 0)"
          by (simp_all add: lock_invariant_def)
        have own: "owners t' = map (\<lambda>y. if ptr y = ptr owner then f y else y) (owners t)"
          by (simp add: t'_def update_owner_fields release_fields)
        have l: "read_lock t' = (read_lock t \<and> CHR ''r'' \<notin> set atype)"
          "write_lock t' = (write_lock t \<and> CHR ''w'' \<notin> set atype)"
          by (simp_all add: t'_def update_owner_fields release_fields g_strstr_len_char)
        have hr: "holds_read (f owner) = (holds_read owner \<and> CHR ''r'' \<notin> set atype)"
          by (simp add: holds_read_def f_def g_strstr_len_char mem_g_strdelimit)
        have hw: "holds_write (f owner) = (holds_write owner \<and> CHR ''w'' \<notin> set atype)"
          by (simp add: holds_write_def f_def g_strstr_len_char mem_g_strdelimit)
        have sr: "CHR ''r'' \<in> set atype \<longrightarrow> holds_read owner"
          using sub by (auto simp: holds_read_def g_strstr_len_char)
        have sw: "CHR ''w'' \<in> set atype \<longrightarrow> holds_write owner"
          using sub by (auto simp: holds_write_def g_strstr_len_char)
        have "length (filter holds_read (owners t')) + (if holds_read owner then 1 else 0) =
            (if read_lock t then 1 else 0) + (if holds_read (f owner) then 1 else 0)"
          using count_map_update [OF d x, of holds_read f] by (simp add: own cr)
        then have 1: "length (filter holds_read (owners t')) = (if read_lock t' then 1 else 0)"
          using sr by (auto simp: l hr split: if_splits)
        have "length (filter holds_write (owners t')) + (if holds_write owner then 1 else 0) =
            (if write_lock t then 1 else 0) + (if holds_write (f owner) then 1 else 0)"
          using count_map_update [OF d x, of holds_write f] by (simp add: own cw)
        then have 2: "length (filter holds_write (owners t')) = (if write_lock t' then 1 else 0)"
          using sw by (auto simp: l hw split: if_splits)
        have "distinct (map ptr (owners t'))"
          using d by (simp add: own ptr_comp_update f_def)
        with 1 2 res show ?thesis by (simp add: lock_invariant_def)
      qed
    qed
  qed
qed

lemma lock_invariant_fold_exit:
  assumes "lock_invariant t" and "distinct (map ptr xs)"
    and "\<forall>x\<in>set xs. \<exists>y\<in>set (owners t). ptr y = ptr x \<and> accesstype y = accesstype x"
  shows "lock_invariant (fold (\<lambda>owner t. media_owner_exit t owner) xs t)"
  using assms
proof (induction xs arbitrary: t)
  case Nil
  then show ?case by simp
next
  case (Cons x xs)
  from Cons.prems(3) obtain y where y: "y \<in> set (owners t)" "ptr y = ptr x"
    "accesstype y = accesstype x" by auto
  have inv': "lock_invariant (media_owner_exit t x)"
    by (rule lock_invariant_exit [OF Cons.prems(1) y])
  from Cons.prems(1) have d: "distinct (map ptr (owners t))" by (simp add: lock_invariant_def)
  have own: "owners (media_owner_exit t x) = filter (\<lambda>z. ptr z \<noteq> ptr x) (owners t)"
    by (simp add: media_owner_exit_owners_distinct [OF d] g_slist_remove_filter [OF d])
  have "\<forall>z\<in>set xs. \<exists>y\<in>set (owners (media_owner_exit t x)).
      ptr y = ptr z \<and> accesstype y = accesstype z"
  proof
    fix z assume z: "z \<in> set xs"
    with Cons.prems(2) have "ptr z \<noteq> ptr x" by (auto simp: image_iff)
    moreover from z Cons.prems(3) obtain y' where "y' \<in> set (owners t)" "ptr y' = ptr z"
      "accesstype y' = accesstype z" by auto
    ultimately show "\<exists>y\<in>set (owners (media_owner_exit t x)).
      ptr y = ptr z \<and> accesstype y = accesstype z"
      by (auto simp: own)
  qed
  moreover from Cons.prems(2) have "distinct (map ptr xs)" by simp
  ultimately have "lock_invariant (fold (\<lambda>owner t. media_owner_exit t owner) xs (media_owner_exit t x))"
    using inv' by (intro Cons.IH)
  then show ?case by simp
qed

lemma lock_invariant_disconnect:
  assumes "lock_invariant t"
  shows "lock_invariant (client_disconnect t nm)"
  unfolding client_disconnect_def
proof (rule lock_invariant_fold_exit [OF assms])
  from assms have "distinct (map ptr (owners t))" by (simp add: lock_invariant_def)
  then show "distinct (map ptr (filter (\<lambda>x. name x = nm \<and> watch x \<noteq> 0) (owners t)))"
    by (rule distinct_map_filter)
  show "\<forall>x\<in>set (filter (\<lambda>x. name x = nm \<and> watch x \<noteq> 0) (owners t)).
      \<exists>y\<in>set (owners t). ptr y = ptr x \<and> accesstype y = accesstype x"
    by auto
qed

lemma lock_invariant_cong:
  "owners t' = owners t \<Longrightarrow> read_lock t' = read_lock t \<Longrightarrow> write_lock t' = write_lock t \<Longrightarrow>
   lock_invariant t' = lock_invariant t"
  by (simp add: lock_invariant_def)

lemma count_map_same:
  "(\<And>y. P (f y) = P y) \<Longrightarrow>
   length (filter P (map (\<lambda>y. if ptr y = p then f y else y) xs)) = length (filter P xs)"
  by (induction xs) auto

lemma lock_invariant_update_request:
  assumes "lock_invariant t"
  shows "lock_invariant (update_owner t p (\<lambda>x. x\<lparr>request := r\<rparr>))"
proof -
  have "length (filter holds_read (map (\<lambda>y. if ptr y = p then y\<lparr>request := r\<rparr> else y) (owners t))) =
      length (filter holds_read (owners t))"
    by (rule count_map_same) (simp add: holds_read_def)
  moreover have "length (filter holds_write (map (\<lambda>y. if ptr y = p then y\<lparr>request := r\<rparr> else y) (owners t))) =
      length (filter holds_write (owners t))"
    by (rule count_map_same) (simp add: holds_write_def)
  ultimately show ?thesis
    using assms by (simp add: lock_invariant_def update_owner_fields ptr_comp_update)
qed

lemma lock_invariant_published:
  "lock_invariant (emit (media_transport_set_fd t f i o') e) = lock_invariant t"
  by (rule lock_invariant_cong) (simp_all add: emit_def media_transport_set_fd_fields)

lemma lock_invariant_idle_add:
  "lock_invariant (g_idle_add_remove_owner t p) = lock_invariant t"
  by (rule lock_invariant_cong) (simp_all add: g_idle_add_remove_owner_def)

lemma lock_invariant_a2dp_resume_complete:
  assumes inv: "lock_invariant t"
    and res: "a2dp_resume_complete err stream stream_transport sent t p = Some t'"
  shows "lock_invariant t'"
proof -
  from res obtain owner req where at: "owner_at t p = Some owner" and rq: "request owner = Some req"
    by (auto simp: a2dp_resume_complete_def split: option.splits)
  define t1 where "t1 = update_owner t p (\<lambda>x. x\<lparr>request := Some (req\<lparr>req_id := 0\<rparr>)\<rparr>)"
  have inv1: "lock_invariant t1"
    unfolding t1_def by (rule lock_invariant_update_request [OF inv])
  show ?thesis
  proof (cases "err \<or> \<not> stream \<or> stream_transport = None")
    case True
    with res at rq have "t' = g_idle_add_remove_owner t1 p"
      by (auto simp: a2dp_resume_complete_def Let_def t1_def split: if_splits)
    with inv1 show ?thesis by (simp add: lock_invariant_idle_add)
  next
    case False
    then obtain f i o' where st: "stream_transport = Some (f, i, o')"
      by (cases stream_transport) auto
    define t3 where "t3 = emit (media_transport_set_fd t1 f i o') (Send_reply_fd (msg req) f)"
    have inv3: "lock_invariant t3"
      using inv1 by (simp add: t3_def lock_invariant_published)
    from res at rq False st have "t' = (if \<not> sent then g_idle_add_remove_owner t3 p else t3)"
      by (simp add: a2dp_resume_complete_def Let_def t1_def t3_def split: if_splits)
    with inv3 show ?thesis by (simp add: lock_invariant_idle_add)
  qed
qed

lemma lock_invariant_headset_resume_complete:
  assumes inv: "lock_invariant t"
    and res: "headset_resume_complete dev sco_fd sent t p = Some t'"
  shows "lock_invariant t'"
proof -
  from res obtain owner req where at: "owner_at t p = Some owner" and rq: "request owner = Some req"
    by (auto simp: headset_resume_complete_def split: option.splits)
  define req0 where "req0 = req\<lparr>req_id := 0\<rparr>"
  define owner0 where "owner0 = owner\<lparr>request := Some req0\<rparr>"
  define t1 where "t1 = update_owner t p (\<lambda>x. x\<lparr>request := Some req0\<rparr>)"
  define t3 where "t3 = emit (media_transport_set_fd t1 sco_fd 48 48) (Send_reply_fd (msg req0) sco_fd)"
  have inv1: "lock_invariant t1"
    unfolding t1_def by (rule lock_invariant_update_request [OF inv])
  have inv3: "lock_invariant t3"
    using inv1 by (simp add: t3_def lock_invariant_published)
  from at have mem: "owner \<in> set (owners t)" and p: "ptr owner = p"
    using find_Some_mem [of "\<lambda>x. ptr x = p" "owners t" owner] by (simp_all add: owner_at_def)
  have mem1: "owner0 \<in> set (owners t1)"
    unfolding t1_def update_owner_fields(3) set_map
    by (rule image_eqI [where x = owner]) (simp_all add: mem p owner0_def)
  from mem1 have mem3: "owner0 \<in> set (owners t3)"
    by (simp add: t3_def emit_def media_transport_set_fd_fields)
  have r1: "lock_invariant (media_owner_remove t1 owner0)"
    by (rule lock_invariant_remove [OF inv1 mem1]) simp_all
  have r3: "lock_invariant (media_owner_remove t3 owner0)"
    by (rule lock_invariant_remove [OF inv3 mem3]) simp_all
  from res at rq have "t' = media_owner_remove t1 owner0 \<or> t' = media_owner_remove t3 owner0 \<or> t' = t3"
    by (auto simp: headset_resume_complete_def Let_def req0_def owner0_def t1_def t3_def
        split: if_splits)
  with r1 r3 inv3 show ?thesis by auto
qed

lemma lock_invariant_remove_owner:
  assumes inv: "lock_invariant t" and res: "remove_owner t p = Some t'"
  shows "lock_invariant t'"
proof -
  from res obtain owner where at: "owner_at t p = Some owner"
    and t': "t' = media_owner_remove t owner"
    by (auto simp: remove_owner_def split: option.splits)
  from at have mem: "owner \<in> set (owners t)"
    using find_Some_mem [of "\<lambda>x. ptr x = p" "owners t" owner] by (simp add: owner_at_def)
  show ?thesis
    unfolding t' by (rule lock_invariant_remove [OF inv mem]) simp_all
qed

lemma lock_invariant_run_idle:
  assumes inv: "lock_invariant t" and res: "run_idle t = Some t'"
  shows "lock_invariant t'"
proof (cases "idle t")
  case Nil
  with res inv show ?thesis by (simp add: run_idle_def)
next
  case (Cons p ps)
  have "lock_invariant (t\<lparr>idle := ps\<rparr>) = lock_invariant t"
    by (rule lock_invariant_cong) simp_all
  with inv have "lock_invariant (t\<lparr>idle := ps\<rparr>)" by simp
  moreover from res Cons have "remove_owner (t\<lparr>idle := ps\<rparr>) p = Some t'"
    by (simp add: run_idle_def)
  ultimately show ?thesis by (rule lock_invariant_remove_owner)
qed

lemma lock_invariant_fold_remove:
  assumes "lock_invariant t" and "distinct (map ptr xs)"
    and "\<forall>x\<in>set xs. \<exists>y\<in>set (owners t). ptr y = ptr x \<and> accesstype y = accesstype x"
  shows "lock_invariant (fold (\<lambda>owner t. media_owner_remove t owner) xs t)"
  using assms
proof (induction xs arbitrary: t)
  case Nil
  then show ?case by simp
next
  case (Cons x xs)
  from Cons.prems(3) obtain y where y: "y \<in> set (owners t)" "ptr y = ptr x"
    "accesstype y = accesstype x" by auto
  have inv': "lock_invariant (media_owner_remove t x)"
    by (rule lock_invariant_remove [OF Cons.prems(1) y])
  from Cons.prems(1) have d: "distinct (map ptr (owners t))" by (simp add: lock_invariant_def)
  have own: "owners (media_owner_remove t x) = filter (\<lambda>z. ptr z \<noteq> ptr x) (owners t)"
    by (simp add: media_owner_remove_owners_distinct [OF d] g_slist_remove_filter [OF d])
  have "\<forall>z\<in>set xs. \<exists>y\<in>set (owners (media_owner_remove t x)).
      ptr y = ptr z \<and> accesstype y = accesstype z"
  proof
    fix z assume z: "z \<in> set xs"
    with Cons.prems(2) have "ptr z \<noteq> ptr x" by (auto simp: image_iff)
    moreover from z Cons.prems(3) obtain y' where "y' \<in> set (owners t)" "ptr y' = ptr z"
      "accesstype y' = accesstype z" by auto
    ultimately show "\<exists>y\<in>set (owners (media_owner_remove t x)).
      ptr y = ptr z \<and> accesstype y = accesstype z"
      by (auto simp: own)
  qed
  moreover from Cons.prems(2) have "distinct (map ptr xs)" by simp
  ultimately have "lock_invariant (fold (\<lambda>owner t. media_owner_remove t owner) xs (media_owner_remove t x))"
    using inv' by (intro Cons.IH)
  then show ?case by simp
qed

lemma lock_invariant_free:
  assumes "lock_invariant t"
  shows "lock_invariant (media_transport_free t)"
  unfolding media_transport_free_def
proof (rule lock_invariant_fold_remove [OF assms])
  from assms show "distinct (map ptr (owners t))" by (simp add: lock_invariant_def)
  show "\<forall>x\<in>set (owners t). \<exists>y\<in>set (owners t). ptr y = ptr x \<and> accesstype y = accesstype x"
    by auto
qed

lemma lock_invariant_step:
  "lock_invariant t \<Longrightarrow> step t op = Some t' \<Longrightarrow> lock_invariant t'"
proof (cases op)
  case (Acquire e m)
  assume "lock_invariant t" "step t op = Some t'"
  with Acquire show ?thesis using lock_invariant_acquire [of t e m] by auto
next
  case (Release m)
  assume "lock_invariant t" "step t op = Some t'"
  with Release show ?thesis using lock_invariant_release [of t m] by auto
next
  case (Disconnect nm)
  assume "lock_invariant t" "step t op = Some t'"
  with Disconnect show ?thesis using lock_invariant_disconnect [of t nm] by auto
next
  case (Resume_complete_a2dp err stream stream_transport sent p)
  assume "lock_invariant t" "step t op = Some t'"
  with Resume_complete_a2dp show ?thesis
    using lock_invariant_a2dp_resume_complete [of t err stream stream_transport sent p t'] by simp
next
  case (Resume_complete_headset dev sco_fd sent p)
  assume "lock_invariant t" "step t op = Some t'"
  with Resume_complete_headset show ?thesis
    using lock_invariant_headset_resume_complete [of t dev sco_fd sent p t'] by simp
next
  case Idle_task
  assume "lock_invariant t" "step t op = Some t'"
  with Idle_task show ?thesis using lock_invariant_run_idle [of t t'] by simp
next
  case Destroy
  assume "lock_invariant t" "step t op = Some t'"
  with Destroy show ?thesis using lock_invariant_free [of t] by auto
qed

lemma lock_invariant_run:
  "lock_invariant t \<Longrightarrow> run t ops = Some t' \<Longrightarrow> lock_invariant t'"
proof (induction ops arbitrary: t)
  case Nil
  then show ?case by simp
next
  case (Cons op ops)
  from Cons.prems(2) obtain t1 where s: "step t op = Some t1" and r: "run t1 ops = Some t'"
    by (auto split: option.splits)
  from Cons.prems(1) s have "lock_invariant t1" by (rule lock_invariant_step)
  then show ?case using r by (rule Cons.IH)
qed

lemma error_reply_is_reply: "is_error_reply_to m e \<Longrightarrow> is_reply e"
  by (cases e) simp_all

lemma media_owner_remove_error_reply:
  "request owner = Some req \<Longrightarrow>
   filter (is_error_reply_to (msg req)) (new_effects t (media_owner_remove t owner)) =
     [Send_error (msg req) strerror_EIO]"
  by (simp add: new_effects_append [OF media_owner_remove_effects] teardown_events_def
      error_reply_kinds)

lemma release_full:
  "args m = Some (accesstype owner) \<Longrightarrow>
   media_transport_find_owner t (sender m) = Some owner \<Longrightarrow>
   release t m = (Some (Method_return m), media_owner_remove t owner)"
  by (simp add: release_def)

lemma fold_unlink_owners:
  assumes h: "\<And>t owner. distinct (map ptr (owners t)) \<Longrightarrow>
      owners (h t owner) = g_slist_remove (owners t) (ptr owner)"
    and d: "distinct (map ptr (owners t))"
  shows "owners (fold (\<lambda>owner t. h t owner) xs t) =
         filter (\<lambda>z. ptr z \<notin> ptr ` set xs) (owners t)"
  using d
proof (induction xs arbitrary: t)
  case Nil
  then show ?case by simp
next
  case (Cons x xs)
  have own: "owners (h t x) = filter (\<lambda>z. ptr z \<noteq> ptr x) (owners t)"
    by (simp add: h [OF Cons.prems] g_slist_remove_filter [OF Cons.prems])
  then have "distinct (map ptr (owners (h t x)))"
    using Cons.prems by (simp add: distinct_map_filter)
  then have "owners (fold (\<lambda>owner t. h t owner) xs (h t x)) =
      filter (\<lambda>z. ptr z \<notin> ptr ` set xs) (owners (h t x))"
    by (rule Cons.IH)
  also have "\<dots> = filter (\<lambda>z. ptr z \<notin> ptr ` set (x # xs)) (owners t)"
    by (auto simp: own intro: filter_cong)
  finally show ?case by simp
qed

lemma client_disconnect_owners:
  assumes d: "distinct (map ptr (owners t))"
  shows "owners (client_disconnect t nm) =
         filter (\<lambda>x. \<not> (name x = nm \<and> watch x \<noteq> 0)) (owners t)"
proof -
  have "owners (client_disconnect t nm) =
      filter (\<lambda>z. ptr z \<notin> ptr ` set (filter (\<lambda>x. name x = nm \<and> watch x \<noteq> 0) (owners t)))
        (owners t)"
    unfolding client_disconnect_def
    by (rule fold_unlink_owners [OF media_owner_exit_owners_distinct d])
  also have "\<dots> = filter (\<lambda>x. \<not> (name x = nm \<and> watch x \<noteq> 0)) (owners t)"
  proof (rule filter_cong [OF refl])
    fix z assume z: "z \<in> set (owners t)"
    show "(ptr z \<notin> ptr ` set (filter (\<lambda>x. name x = nm \<and> watch x \<noteq> 0) (owners t))) =
        (\<not> (name z = nm \<and> watch z \<noteq> 0))"
    proof (cases "name z = nm \<and> watch z \<noteq> 0")
      case True
      with z show ?thesis by (auto simp: image_iff)
    next
      case False
      have "ptr z \<notin> ptr ` set (filter (\<lambda>x. name x = nm \<and> watch x \<noteq> 0) (owners t))"
      proof
        assume "ptr z \<in> ptr ` set (filter (\<lambda>x. name x = nm \<and> watch x \<noteq> 0) (owners t))"
        then obtain y where eq: "ptr z = ptr y"
          and y: "y \<in> set (filter (\<lambda>x. name x = nm \<and> watch x \<noteq> 0) (owners t))"
          by (rule imageE)
        from y have yo: "y \<in> set (owners t)" and yq: "name y = nm \<and> watch y \<noteq> 0"
          by simp_all
        have "z = y" using z yo eq by (rule same_ptr_same_owner [OF d])
        with yq False show False by blast
      qed
      with False show ?thesis by blast
    qed
  qed
  finally show ?thesis .
qed

lemma media_transport_free_owners:
  assumes d: "distinct (map ptr (owners t))"
  shows "owners (media_transport_free t) = []"
proof -
  have "owners (media_transport_free t) =
      filter (\<lambda>z. ptr z \<notin> ptr ` set (owners t)) (owners t)"
    unfolding media_transport_free_def
    by (rule fold_unlink_owners [OF media_owner_remove_owners_distinct d])
  then show ?thesis by simp
qed

lemma fold_remove_effects:
  "\<exists>ys. effects (fold (\<lambda>owner t. media_owner_remove t owner) xs t) = effects t @ ys \<and>
        (\<forall>x\<in>set xs. \<forall>req. request x = Some req \<longrightarrow>
           Send_error (msg req) strerror_EIO \<in> set ys)"
proof (induction xs arbitrary: t)
  case Nil
  show ?case by simp
next
  case (Cons x xs)
  define zs where "zs = teardown_events t x @
     (if g_slist_remove (owners t) (ptr x) = []
      then [suspend_event (profile t) (session t)] else [])"
  have e: "effects (media_owner_remove t x) = effects t @ zs"
    by (simp add: media_owner_remove_effects zs_def)
  have z: "Send_error (msg req) strerror_EIO \<in> set zs" if "request x = Some req" for req
    using that by (simp add: zs_def teardown_events_def)
  from Cons.IH [of "media_owner_remove t x"] obtain ys
    where ys: "effects (fold (\<lambda>owner t. media_owner_remove t owner) xs (media_owner_remove t x)) =
        effects (media_owner_remove t x) @ ys"
      and m: "\<forall>x\<in>set xs. \<forall>req. request x = Some req \<longrightarrow>
           Send_error (msg req) strerror_EIO \<in> set ys"
    by blast
  have "effects (fold (\<lambda>owner t. media_owner_remove t owner) (x # xs) t) = effects t @ (zs @ ys)"
    by (simp add: ys e)
  moreover have "\<forall>x'\<in>set (x # xs). \<forall>req. request x' = Some req \<longrightarrow>
           Send_error (msg req) strerror_EIO \<in> set (zs @ ys)"
    using z m by auto
  ultimately show ?case by blast
qed

lemma media_transport_free_error_reply:
  assumes "x \<in> set (owners t)" and "request x = Some req"
  shows "Send_error (msg req) strerror_EIO \<in> set (new_effects t (media_transport_free t))"
proof -
  from fold_remove_effects [of "owners t" t] obtain ys
    where "effects (media_transport_free t) = effects t @ ys"
      and "\<forall>x\<in>set (owners t). \<forall>req. request x = Some req \<longrightarrow>
           Send_error (msg req) strerror_EIO \<in> set ys"
    unfolding media_transport_free_def by blast
  with assms show ?thesis by (auto simp: new_effects_def)
qed

lemma acquire_sync_failure:
  assumes a: "args m = Some atype"
    and f: "media_transport_find_owner transport (sender m) = None"
    and q: "media_transport_acquire transport atype = (True, t1)"
    and r: "fst (resume e (snd (media_owner_create e t1 m atype))
                  (fst (media_owner_create e t1 m atype))) = 0"
  shows "owners (snd (acquire e transport m)) = owners transport"
    and "filter (is_error_reply_to m) (new_effects transport (snd (acquire e transport m))) =
           [Send_error m strerror_EIO]"
proof -
  define p where "p = new_ptr (owners transport)"
  define req where "req = \<lparr>msg = m, req_id = 0\<rparr>"
  define owner1 where "owner1 = \<lparr>ptr = p, name = sender m, accesstype = atype,
      watch = g_dbus_add_disconnect_watch e, request = Some req\<rparr>"
  define t2 where "t2 = snd (media_owner_create e t1 m atype)"
  define t3 where "t3 = snd (resume e t2 (owner1\<lparr>request := None\<rparr>))"
  define t4 where "t4 = update_owner t3 p (\<lambda>x. x\<lparr>request := Some req\<rparr>)"
  have q2: "snd (media_transport_acquire transport atype) = t1"
    using q by simp
  note f1 = media_transport_acquire_fields [of transport atype, unfolded q2]
  have created: "fst (media_owner_create e t1 m atype) = owner1\<lparr>request := None\<rparr>"
    by (simp add: media_owner_create_fields f1 owner1_def p_def)
  have res: "snd (acquire e transport m) = media_owner_remove t4 owner1"
    using r by (simp add: acquire_passed [OF a f q] Let_def created t2_def t3_def t4_def
        req_def owner1_def)
  have fresh: "\<forall>x\<in>set (owners transport). ptr x \<noteq> p"
    using new_ptr_fresh by (auto simp: p_def)
  have own2: "owners t2 = owners transport @ [owner1\<lparr>request := None\<rparr>]"
    by (simp add: t2_def media_owner_create_fields(3) created f1)
  have own4: "owners t4 = owners transport @ [owner1]"
    using fresh
    by (simp add: t4_def t3_def update_owner_fields resume_fields own2 map_update_other
        owner1_def)
  have "owners (media_owner_remove t4 owner1) =
      g_slist_remove (map (\<lambda>x. if ptr x = p then x\<lparr>request := None\<rparr> else x)
        (owners transport @ [owner1])) p"
    by (simp add: media_owner_remove_fields owners_before_unlink_def owner1_def own4)
  also have "\<dots> = owners transport"
    using g_slist_remove_fresh_last [OF fresh, of owner1 "\<lambda>x. x\<lparr>request := None\<rparr>"]
    by (simp add: owner1_def)
  finally show "owners (snd (acquire e transport m)) = owners transport"
    by (simp add: res)
  obtain xs where xs: "effects t3 = effects t2 @ xs"
    and nr: "\<forall>x\<in>set xs. \<not> is_reply x \<and> \<not> is_cancel x"
    using resume_effects [of e t2 "owner1\<lparr>request := None\<rparr>"] by (auto simp: t3_def)
  from nr have ne: "\<forall>x\<in>set xs. \<not> is_error_reply_to m x"
    using error_reply_is_reply by blast
  have eff: "effects (media_owner_remove t4 owner1) =
      effects transport @
        (Add_disconnect_watch (sender m) p # xs @ teardown_events t4 owner1 @
         (if g_slist_remove (owners t4) (ptr owner1) = []
          then [suspend_event (profile t4) (session t4)] else []))"
    by (simp add: media_owner_remove_effects t4_def update_owner_fields xs t2_def
        media_owner_create_fields f1 p_def)
  have td: "filter (is_error_reply_to m) (teardown_events t4 owner1) = [Send_error m strerror_EIO]"
    by (simp add: teardown_events_def owner1_def req_def error_reply_kinds)
  show "filter (is_error_reply_to m) (new_effects transport (snd (acquire e transport m))) =
      [Send_error m strerror_EIO]"
    using ne by (simp add: res new_effects_append [OF eff] td error_reply_kinds)
qed

section \<open>Acquire and Release: rejected calls\<close>

text \<open>
  Claim C8. A client that already has an owner on the transport calls \<open>Acquire\<close>
  again: whatever access type it asks for, the call is answered with the error
  "Permission denied" and the transport, its trace included, is as before.
\<close>

theorem acquire_by_owner_denied:
  assumes "args m = Some atype"
    and "media_transport_find_owner transport (sender m) = Some owner"
  shows "acquire e transport m = (Some (permission_denied m), transport)"
  using assms by (simp add: acquire_def)

text \<open>
  Client A holds \<open>r\<close> on an A2DP transport and asks for \<open>w\<close>.
\<close>

theorem acquire_by_owner_denied_witness:
  "args (client_call ''A'' ''w'') = Some ''w'' \<and>
   media_transport_find_owner (acquired A2DP ''A'' ''r'' 7) (sender (client_call ''A'' ''w'')) \<noteq> None \<and>
   acquire (env_ok 7) (acquired A2DP ''A'' ''r'' 7) (client_call ''A'' ''w'') =
     (Some (permission_denied (client_call ''A'' ''w'')), acquired A2DP ''A'' ''r'' 7)"
proof -
  have a: "args (client_call ''A'' ''w'') = Some ''w''"
    by (simp add: client_call_def)
  have f: "media_transport_find_owner (acquired A2DP ''A'' ''r'' 7) (sender (client_call ''A'' ''w'')) =
      Some \<lparr>ptr = 1, name = ''A'', accesstype = ''r'', watch = 3,
            request = Some \<lparr>msg = client_call ''A'' ''r'', req_id = 7\<rparr>\<rparr>"
    by (simp add: model_defs)
  show ?thesis
    using a f acquire_by_owner_denied [OF a f, of "env_ok 7"] by simp
qed

text \<open>
  Claim C9. \<open>Acquire\<close> with an access type that contains neither the character \<open>r\<close>
  nor the character \<open>w\<close> is answered with "Permission denied", and nothing happens: the
  transport is returned unchanged, so no lock is set, no owner is created and no call
  is made to the profile. The lock function itself returns FALSE without writing.
\<close>

theorem acquire_invalid_accesstype:
  assumes "CHR ''r'' \<notin> set atype" and "CHR ''w'' \<notin> set atype" and "args m = Some atype"
  shows "acquire e transport m = (Some (permission_denied m), transport) \<and>
         media_transport_acquire transport atype = (False, transport)"
proof -
  from assms(1,2) have "\<not> g_strstr_len atype ''r''" and "\<not> g_strstr_len atype ''w''"
    by (simp_all add: g_strstr_len_char)
  then have acq: "media_transport_acquire transport atype = (False, transport)"
    by (rule media_transport_acquire_invalid)
  with assms(3) show ?thesis
    by (simp add: acquire_def split: option.splits)
qed

text \<open>
  \<open>Acquire ("x")\<close> on a fresh transport.
\<close>

theorem acquire_invalid_accesstype_witness:
  "CHR ''r'' \<notin> set ''x'' \<and> CHR ''w'' \<notin> set ''x'' \<and>
   acquire (env_ok 7) (media_transport_create A2DP) (client_call ''A'' ''x'') =
     (Some (permission_denied (client_call ''A'' ''x'')), media_transport_create A2DP)"
proof -
  have a: "args (client_call ''A'' ''x'') = Some ''x''"
    by (simp add: client_call_def)
  have r: "CHR ''r'' \<notin> set ''x''" and w: "CHR ''w'' \<notin> set ''x''" by simp_all
  show ?thesis
    using r w acquire_invalid_accesstype [OF r w a, of "env_ok 7" "media_transport_create A2DP"]
    by simp
qed

text \<open>
  Claim C3, as amended. The caller has an owner. \<open>Release\<close> is answered with
  "Permission denied", and the transport is left unchanged, whenever the access type
  is neither equal to the owner's access string nor a contiguous part of it. That is
  so in particular whenever the access type contains a character (\<open>r\<close>, \<open>w\<close> or any
  other) that the owner's access string does not contain. The empty string is not
  among the rejected arguments: it is part of every string.
\<close>

theorem release_mismatch_denied:
  assumes "args m = Some atype"
    and "media_transport_find_owner transport (sender m) = Some owner"
  shows "(atype \<noteq> accesstype owner \<and> \<not> (\<exists>p s. accesstype owner = p @ atype @ s) \<longrightarrow>
            release transport m = (Some (permission_denied m), transport)) \<and>
         (\<not> set atype \<subseteq> set (accesstype owner) \<longrightarrow>
            release transport m = (Some (permission_denied m), transport))"
proof -
  have 1: "release transport m = (Some (permission_denied m), transport)"
    if "atype \<noteq> accesstype owner" and "\<not> (\<exists>p s. accesstype owner = p @ atype @ s)"
    using that assms by (simp add: release_def g_strstr_len_iff)
  have 2: "atype \<noteq> accesstype owner \<and> \<not> (\<exists>p s. accesstype owner = p @ atype @ s)"
    if "\<not> set atype \<subseteq> set (accesstype owner)"
    using that by auto
  from 1 2 show ?thesis by blast
qed

text \<open>
  Client A holds \<open>w\<close> and releases \<open>rw\<close>.
\<close>

theorem release_mismatch_denied_witness:
  "release (acquired A2DP ''A'' ''w'' 7) (client_call ''A'' ''rw'') =
     (Some (permission_denied (client_call ''A'' ''rw'')), acquired A2DP ''A'' ''w'' 7)"
proof -
  have a: "args (client_call ''A'' ''rw'') = Some ''rw''"
    by (simp add: client_call_def)
  have f: "media_transport_find_owner (acquired A2DP ''A'' ''w'' 7) (sender (client_call ''A'' ''rw'')) =
      Some \<lparr>ptr = 1, name = ''A'', accesstype = ''w'', watch = 3,
            request = Some \<lparr>msg = client_call ''A'' ''w'', req_id = 7\<rparr>\<rparr>"
    by (simp add: model_defs)
  show ?thesis
    using release_mismatch_denied [OF a f] by simp
qed

text \<open>
  Claim C3 as stated fails at the empty string: client A holds \<open>rw\<close>, the empty
  string is neither equal to \<open>rw\<close> nor a non-empty subset of it, and \<open>Release ("")\<close>
  is answered with an ordinary method return, not with an error.
\<close>

theorem release_empty_counterexample:
  "media_transport_find_owner (acquired A2DP ''A'' ''rw'' 7) ''A'' =
     Some \<lparr>ptr = 1, name = ''A'', accesstype = ''rw'', watch = 3,
           request = Some \<lparr>msg = client_call ''A'' ''rw'', req_id = 7\<rparr>\<rparr> \<and>
   release (acquired A2DP ''A'' ''rw'' 7) (client_call ''A'' '''') =
     (Some (Method_return (client_call ''A'' '''')), acquired A2DP ''A'' ''rw'' 7) \<and>
   fst (release (acquired A2DP ''A'' ''rw'' 7) (client_call ''A'' '''')) \<noteq>
     Some (permission_denied (client_call ''A'' ''''))"
  by (simp add: model_defs)

section \<open>Publishing the channel descriptor\<close>

text \<open>
  Claim C4, as amended. Publishing a descriptor whose handle equals the stored one
  changes nothing and notifies nothing, whatever the MTU values are. Publishing a
  descriptor with another handle stores the three values and emits exactly two
  notifications, \<open>IMTU\<close> then \<open>OMTU\<close>, with the new values, whether or not either value
  differs from the stored one.
\<close>

theorem media_transport_set_fd_notifications:
  "(fd transport = fd' \<longrightarrow> media_transport_set_fd transport fd' imtu' omtu' = transport) \<and>
   (fd transport \<noteq> fd' \<longrightarrow>
      effects (media_transport_set_fd transport fd' imtu' omtu') =
        effects transport @
          [Emit_property_changed ''IMTU'' imtu', Emit_property_changed ''OMTU'' omtu'] \<and>
      fd (media_transport_set_fd transport fd' imtu' omtu') = fd' \<and>
      imtu (media_transport_set_fd transport fd' imtu' omtu') = imtu' \<and>
      omtu (media_transport_set_fd transport fd' imtu' omtu') = omtu')"
  by (simp add: media_transport_set_fd_def emit_def Let_def)

text \<open>
  The headset descriptor \<open>(5, 48, 48)\<close> published twice to a fresh transport.
\<close>

theorem media_transport_set_fd_notifications_witness:
  "media_transport_set_fd (media_transport_set_fd (media_transport_create HEADSET) 5 48 48) 5 48 48 =
     media_transport_set_fd (media_transport_create HEADSET) 5 48 48 \<and>
   effects (media_transport_set_fd (media_transport_create HEADSET) 5 48 48) =
     [Emit_property_changed ''IMTU'' 48, Emit_property_changed ''OMTU'' 48]"
  using media_transport_set_fd_notifications
          [of "media_transport_set_fd (media_transport_create HEADSET) 5 48 48" 5 48 48]
        media_transport_set_fd_notifications [of "media_transport_create HEADSET" 5 48 48]
  by (simp add: media_transport_create_def)

text \<open>
  Claim C4 as stated fails: the stored descriptor is \<open>(5, 672, 672)\<close>, the published
  one \<open>(6, 895, 672)\<close>. Only the input MTU changed, yet \<open>OMTU\<close> is notified too.
\<close>

theorem media_transport_set_fd_counterexample:
  "omtu (media_transport_set_fd (media_transport_create A2DP) 5 672 672) = 672 \<and>
   new_effects (media_transport_set_fd (media_transport_create A2DP) 5 672 672)
     (media_transport_set_fd (media_transport_set_fd (media_transport_create A2DP) 5 672 672) 6 895 672) =
     [Emit_property_changed ''IMTU'' 895, Emit_property_changed ''OMTU'' 672]"
  by (simp add: model_defs)

section \<open>Partial release\<close>

text \<open>
  Claim C1, evaluated on the code. Client A acquires \<open>rw\<close>, the resume completes.
  \<open>Release ("r")\<close> leaves owner A in the list with the access string \<open>" w"\<close>, the read
  lock clear and the write lock set, as the claim says. \<open>Release ("w")\<close> then finds
  that \<open>"w"\<close> is not equal to \<open>" w"\<close> but is part of it, so it takes the partial
  branch again: both locks are clear, but owner A is still in the owner list, now with
  the access string of two blanks, and no call to the profile's suspend is made (the
  trace and \<open>in_use\<close> are as before).
\<close>

theorem release_r_then_w_keeps_owner:
  "a2dp_resume_complete False True (Some (5, 672, 672)) True (acquired A2DP ''A'' ''rw'' 7) 1 =
     Some (scenario_transport ''rw'' True True) \<and>
   release (scenario_transport ''rw'' True True) (client_call ''A'' ''r'') =
     (Some (Method_return (client_call ''A'' ''r'')), scenario_transport '' w'' False True) \<and>
   release (scenario_transport '' w'' False True) (client_call ''A'' ''w'') =
     (Some (Method_return (client_call ''A'' ''w'')), scenario_transport ''  '' False False)"
proof (intro conjI)
  show "a2dp_resume_complete False True (Some (5, 672, 672)) True
          (acquired A2DP ''A'' ''rw'' 7) 1 = Some (scenario_transport ''rw'' True True)"
    by (simp add: model_defs scenario_transport_def scenario_owner_def)
  show "release (scenario_transport ''rw'' True True) (client_call ''A'' ''r'') =
     (Some (Method_return (client_call ''A'' ''r'')), scenario_transport '' w'' False True)"
    by (simp add: model_defs scenario_transport_def scenario_owner_def)
  show "release (scenario_transport '' w'' False True) (client_call ''A'' ''w'') =
     (Some (Method_return (client_call ''A'' ''w'')), scenario_transport ''  '' False False)"
    by (simp add: model_defs scenario_transport_def scenario_owner_def)
qed

section \<open>Synchronous resume failure\<close>

text \<open>
  Claim C6. \<open>Acquire\<close> has passed validation (the caller has no owner, the lock
  function returned TRUE) and the profile's resume returns the ticket 0. Then the
  handler returns no reply of its own, and of the calls it made exactly one is a reply:
  the error reply on the caller's message. The two locks, the owner list, the stored
  descriptor and the idle queue are what they were before the call, so the lock bits
  just taken are given back, the new owner is gone and no descriptor was set.
\<close>

theorem acquire_resume_fails:
  assumes a: "args m = Some atype"
    and f: "media_transport_find_owner transport (sender m) = None"
    and q: "media_transport_acquire transport atype = (True, t1)"
    and r: "fst (resume e (snd (media_owner_create e t1 m atype))
                  (fst (media_owner_create e t1 m atype))) = 0"
  shows "fst (acquire e transport m) = None \<and>
         filter is_reply (new_effects transport (snd (acquire e transport m))) =
           [Send_error m strerror_EIO] \<and>
         read_lock (snd (acquire e transport m)) = read_lock transport \<and>
         write_lock (snd (acquire e transport m)) = write_lock transport \<and>
         owners (snd (acquire e transport m)) = owners transport \<and>
         fd (snd (acquire e transport m)) = fd transport \<and>
         imtu (snd (acquire e transport m)) = imtu transport \<and>
         omtu (snd (acquire e transport m)) = omtu transport \<and>
         idle (snd (acquire e transport m)) = idle transport"
proof -
  define owner where "owner = fst (media_owner_create e t1 m atype)"
  define t2 where "t2 = snd (media_owner_create e t1 m atype)"
  define t3 where "t3 = snd (resume e t2 owner)"
  define req where "req = \<lparr>msg = m, req_id = 0\<rparr>"
  define t4 where "t4 = update_owner t3 (ptr owner) (\<lambda>x. x\<lparr>request := Some req\<rparr>)"
  define owner1 where "owner1 = owner\<lparr>request := Some req\<rparr>"
  define p where "p = new_ptr (owners transport)"
  have res: "acquire e transport m = (None, media_owner_remove t4 owner1)"
    using r by (simp add: acquire_passed [OF a f q] Let_def owner_def t2_def t3_def req_def
        t4_def owner1_def)
  have q1: "fst (media_transport_acquire transport atype)"
    and q2: "snd (media_transport_acquire transport atype) = t1"
    using q by simp_all
  note t1 = media_transport_acquire_fields [of transport atype, unfolded q2]
  note l1 = media_transport_acquire_locks [OF q1, unfolded q2]
  have owner: "owner = \<lparr>ptr = p, name = sender m, accesstype = atype,
      watch = g_dbus_add_disconnect_watch e, request = None\<rparr>"
    unfolding owner_def p_def by (simp add: media_owner_create_fields t1)
  have fresh: "\<forall>x\<in>set (owners transport). ptr x \<noteq> p"
    using new_ptr_fresh by (auto simp: p_def)
  have own4: "owners t4 = map (\<lambda>x. if ptr x = p then x\<lparr>request := Some req\<rparr> else x)
      (owners transport @ [owner])"
  proof -
    have "ptr owner = p" by (simp add: owner)
    moreover have "owners t2 = owners transport @ [owner]"
      by (simp add: t2_def owner_def media_owner_create_fields(3) t1)
    ultimately show ?thesis
      by (simp add: t4_def t3_def update_owner_fields resume_fields)
  qed
  have own4': "owners t4 = owners transport @ [owner1]"
    using fresh by (simp add: own4 owner1_def owner map_update_other)
  have owners: "owners (media_owner_remove t4 owner1) = owners transport"
  proof -
    have "owners (media_owner_remove t4 owner1) =
      g_slist_remove (map (\<lambda>x. if ptr x = p then x\<lparr>request := None\<rparr> else x)
        (owners transport @ [owner1])) p"
      by (simp add: media_owner_remove_fields owners_before_unlink_def owner1_def owner own4')
    also have "\<dots> = owners transport"
      using g_slist_remove_fresh_last [OF fresh, of owner1 "\<lambda>x. x\<lparr>request := None\<rparr>"]
      by (simp add: owner1_def owner)
    finally show ?thesis .
  qed
  obtain xs where xs: "effects t3 = effects t2 @ xs"
    and nr: "\<forall>x\<in>set xs. \<not> is_reply x \<and> \<not> is_cancel x"
    using resume_effects [of e t2 owner] by (auto simp: t3_def)
  have eff: "effects (media_owner_remove t4 owner1) =
      effects transport @
        (Add_disconnect_watch (sender m) p # xs @ teardown_events t4 owner1 @
         (if g_slist_remove (owners t4) (ptr owner1) = []
          then [suspend_event (profile t4) (session t4)] else []))"
    by (simp add: media_owner_remove_effects t4_def update_owner_fields xs t2_def
        media_owner_create_fields t1 p_def)
  have td: "filter is_reply (teardown_events t4 owner1) = [Send_error m strerror_EIO]"
    by (simp add: teardown_events_def owner1_def req_def filter_request_events)
  have replies: "filter is_reply (new_effects transport (media_owner_remove t4 owner1)) =
      [Send_error m strerror_EIO]"
    using nr by (simp add: new_effects_append [OF eff] td event_kinds)
  have rl: "read_lock (media_owner_remove t4 owner1) = read_lock transport"
    using l1 by (auto simp: media_owner_remove_fields t4_def t3_def t2_def update_owner_fields
        resume_fields media_owner_create_fields owner1_def owner)
  have wl: "write_lock (media_owner_remove t4 owner1) = write_lock transport"
    using l1 by (auto simp: media_owner_remove_fields t4_def t3_def t2_def update_owner_fields
        resume_fields media_owner_create_fields owner1_def owner)
  have rest: "fd (media_owner_remove t4 owner1) = fd transport"
    "imtu (media_owner_remove t4 owner1) = imtu transport"
    "omtu (media_owner_remove t4 owner1) = omtu transport"
    "idle (media_owner_remove t4 owner1) = idle transport"
    by (simp_all add: media_owner_remove_fields t4_def t3_def t2_def update_owner_fields
        resume_fields media_owner_create_fields t1)
  show ?thesis
    by (simp add: res replies rl wl owners rest)
qed

text \<open>
  \<open>Acquire ("rw")\<close> on a fresh A2DP transport when the signalling session cannot be had.
\<close>

theorem acquire_resume_fails_witness:
  "fst (acquire env_no_session (media_transport_create A2DP) (client_call ''A'' ''rw'')) = None \<and>
   filter is_reply (new_effects (media_transport_create A2DP)
       (snd (acquire env_no_session (media_transport_create A2DP) (client_call ''A'' ''rw'')))) =
     [Send_error (client_call ''A'' ''rw'') strerror_EIO] \<and>
   read_lock (snd (acquire env_no_session (media_transport_create A2DP) (client_call ''A'' ''rw''))) = False \<and>
   write_lock (snd (acquire env_no_session (media_transport_create A2DP) (client_call ''A'' ''rw''))) = False \<and>
   owners (snd (acquire env_no_session (media_transport_create A2DP) (client_call ''A'' ''rw''))) = [] \<and>
   fd (snd (acquire env_no_session (media_transport_create A2DP) (client_call ''A'' ''rw''))) = - 1"
proof -
  have a: "args (client_call ''A'' ''rw'') = Some ''rw''"
    by (simp add: client_call_def)
  have f: "media_transport_find_owner (media_transport_create A2DP) (sender (client_call ''A'' ''rw'')) = None"
    by (simp add: model_defs)
  have q: "media_transport_acquire (media_transport_create A2DP) ''rw'' =
      (True, (media_transport_create A2DP)\<lparr>read_lock := True, write_lock := True\<rparr>)"
    by (simp add: model_defs)
  have r: "fst (resume env_no_session
      (snd (media_owner_create env_no_session
             ((media_transport_create A2DP)\<lparr>read_lock := True, write_lock := True\<rparr>)
             (client_call ''A'' ''rw'') ''rw''))
      (fst (media_owner_create env_no_session
             ((media_transport_create A2DP)\<lparr>read_lock := True, write_lock := True\<rparr>)
             (client_call ''A'' ''rw'') ''rw''))) = 0"
    by (simp add: model_defs env_no_session_def)
  show ?thesis
    using acquire_resume_fails [OF a f q r]
    by (simp add: media_transport_create_def)
qed

section \<open>Tearing down an owner with a pending request\<close>

text \<open>
  Claim C7, as amended. The owner has a pending request. When the owner is removed by
  \<open>media_owner_remove\<close> (full release, transport destruction), exactly one reply is
  sent, the I/O error on the request's message. When the client has left the bus
  (\<open>media_owner_exit\<close>), no reply is sent at all. In both cases the profile's cancel is
  called exactly once, with the request's ticket, if the ticket is not 0, and not at
  all if it is 0 (the completion callback has run). With distinct owner addresses the
  owner is no longer in the list afterwards, so nothing can reach the request again.
\<close>

theorem pending_request_teardown:
  assumes "request owner = Some req"
  shows "filter is_reply (new_effects transport (media_owner_remove transport owner)) =
           [Send_error (msg req) strerror_EIO] \<and>
         filter is_cancel (new_effects transport (media_owner_remove transport owner)) =
           (if req_id req = 0 then [] else [cancel_event (profile transport) (req_id req)]) \<and>
         filter is_reply (new_effects transport (media_owner_exit transport owner)) = [] \<and>
         filter is_cancel (new_effects transport (media_owner_exit transport owner)) =
           (if req_id req = 0 then [] else [cancel_event (profile transport) (req_id req)]) \<and>
         (distinct (map ptr (owners transport)) \<longrightarrow>
            owner_at (media_owner_remove transport owner) (ptr owner) = None \<and>
            owner_at (media_owner_exit transport owner) (ptr owner) = None)"
proof -
  have 1: "filter is_reply (new_effects transport (media_owner_remove transport owner)) =
           [Send_error (msg req) strerror_EIO]"
    using assms
    by (simp add: new_effects_append [OF media_owner_remove_effects] teardown_events_def
        filter_request_events event_kinds)
  have 2: "filter is_cancel (new_effects transport (media_owner_remove transport owner)) =
           (if req_id req = 0 then [] else [cancel_event (profile transport) (req_id req)])"
    using assms
    by (simp add: new_effects_append [OF media_owner_remove_effects] teardown_events_def
        filter_request_events event_kinds)
  have 3: "filter is_reply (new_effects transport (media_owner_exit transport owner)) = []"
    using assms
    by (simp add: new_effects_append [OF media_owner_exit_effects] filter_request_events
        event_kinds)
  have 4: "filter is_cancel (new_effects transport (media_owner_exit transport owner)) =
           (if req_id req = 0 then [] else [cancel_event (profile transport) (req_id req)])"
    using assms
    by (simp add: new_effects_append [OF media_owner_exit_effects] filter_request_events
        event_kinds)
  from 1 2 3 4 show ?thesis
    by (simp add: media_owner_remove_unlinked media_owner_exit_unlinked)
qed

text \<open>
  A headset transport on which client A has a pending \<open>Acquire ("r")\<close> with ticket 7:
  once torn down by \<open>Release ("r")\<close>, once by the client leaving the bus.
\<close>

theorem pending_request_teardown_witness:
  "filter is_reply (new_effects (acquired HEADSET ''A'' ''r'' 7)
      (snd (release (acquired HEADSET ''A'' ''r'' 7) (client_call ''A'' ''r'')))) =
     [Send_error (client_call ''A'' ''r'') strerror_EIO] \<and>
   filter is_cancel (new_effects (acquired HEADSET ''A'' ''r'' 7)
      (snd (release (acquired HEADSET ''A'' ''r'' 7) (client_call ''A'' ''r'')))) =
     [Headset_cancel_stream 7] \<and>
   filter is_reply (new_effects (acquired HEADSET ''A'' ''r'' 7)
      (client_disconnect (acquired HEADSET ''A'' ''r'' 7) ''A'')) = [] \<and>
   filter is_cancel (new_effects (acquired HEADSET ''A'' ''r'' 7)
      (client_disconnect (acquired HEADSET ''A'' ''r'' 7) ''A'')) = [Headset_cancel_stream 7]"
proof -
  let ?req = "\<lparr>msg = client_call ''A'' ''r'', req_id = 7\<rparr>"
  let ?owner = "\<lparr>ptr = 1, name = ''A'', accesstype = ''r'', watch = 3, request = Some ?req\<rparr>"
  have st: "owners (acquired HEADSET ''A'' ''r'' 7) = [?owner]"
    "profile (acquired HEADSET ''A'' ''r'' 7) = HEADSET"
    by (simp_all add: model_defs)
  have rel: "snd (release (acquired HEADSET ''A'' ''r'' 7) (client_call ''A'' ''r'')) =
      media_owner_remove (acquired HEADSET ''A'' ''r'' 7) ?owner"
    by (simp add: release_def media_transport_find_owner_def st client_call_def)
  have dis: "client_disconnect (acquired HEADSET ''A'' ''r'' 7) ''A'' =
      media_owner_exit (acquired HEADSET ''A'' ''r'' 7) ?owner"
    by (simp add: client_disconnect_def st)
  have r: "request ?owner = Some ?req" by simp
  show ?thesis
    using pending_request_teardown [OF r, of "acquired HEADSET ''A'' ''r'' 7"]
    by (simp add: rel dis st cancel_event_def)
qed

text \<open>
  Claim C7 as stated fails for a disconnect: client A has a pending \<open>Acquire ("r")\<close>
  with ticket 7 on an A2DP transport and leaves the bus. The ticket is cancelled, the
  message dropped and the profile suspended, but no error reply is sent on the message.
\<close>

theorem disconnect_no_reply_counterexample:
  "owners (acquired A2DP ''A'' ''r'' 7) =
     [\<lparr>ptr = 1, name = ''A'', accesstype = ''r'', watch = 3,
       request = Some \<lparr>msg = client_call ''A'' ''r'', req_id = 7\<rparr>\<rparr>] \<and>
   new_effects (acquired A2DP ''A'' ''r'' 7) (client_disconnect (acquired A2DP ''A'' ''r'' 7) ''A'') =
     [A2dp_cancel 7, Message_unref (client_call ''A'' ''r''), A2dp_sep_unlock True] \<and>
   filter (is_error_reply_to (client_call ''A'' ''r''))
     (effects (client_disconnect (acquired A2DP ''A'' ''r'' 7) ''A'')) = []"
  by (simp add: model_defs)

section \<open>Suspend when the last owner goes\<close>

text \<open>
  Claim C10. When removing an owner leaves the owner list empty, the last call
  \<open>media_owner_remove\<close> makes is the profile's unlock (\<open>a2dp_sep_unlock\<close> with the
  session as it is, or \<open>headset_unlock\<close>) and \<open>in_use\<close> is false afterwards, whatever
  \<open>in_use\<close> was before. The profile's suspend itself always makes that call and always
  clears \<open>in_use\<close>.
\<close>

theorem media_owner_remove_last_suspends:
  assumes "g_slist_remove (owners transport) (ptr owner) = []"
  shows "last (effects (media_owner_remove transport owner)) =
           (case profile transport of
              A2DP \<Rightarrow> A2dp_sep_unlock (session transport)
            | HEADSET \<Rightarrow> Headset_unlock) \<and>
         in_use (media_owner_remove transport owner) = False \<and>
         in_use (suspend transport) = False \<and>
         effects (suspend transport) = effects transport @
           [case profile transport of
              A2DP \<Rightarrow> A2dp_sep_unlock (session transport)
            | HEADSET \<Rightarrow> Headset_unlock]"
proof -
  have e: "effects (media_owner_remove transport owner) =
      effects transport @ teardown_events transport owner @
        [suspend_event (profile transport) (session transport)]"
    using assms by (simp add: media_owner_remove_effects)
  have 2: "last (effects (media_owner_remove transport owner)) =
           (case profile transport of
              A2DP \<Rightarrow> A2dp_sep_unlock (session transport)
            | HEADSET \<Rightarrow> Headset_unlock)"
    by (simp add: e suspend_event_def)
  have 3: "in_use (media_owner_remove transport owner) = False"
    using assms by (simp add: media_owner_remove_in_use)
  have 4: "in_use (suspend transport) = False"
    "effects (suspend transport) = effects transport @
           [case profile transport of
              A2DP \<Rightarrow> A2dp_sep_unlock (session transport)
            | HEADSET \<Rightarrow> Headset_unlock]"
    by (simp_all add: suspend_fields suspend_event_def)
  from 2 3 4 show ?thesis by simp
qed

text \<open>
  \<open>Acquire ("r")\<close> on a fresh A2DP transport whose signalling session cannot be had:
  \<open>in_use\<close> was never set and the endpoint was never locked, yet it is unlocked, with a
  NULL session.
\<close>

theorem media_owner_remove_last_suspends_witness:
  "snd (acquire env_no_session (media_transport_create A2DP) (client_call ''A'' ''r'')) =
     media_owner_remove
       ((media_transport_create A2DP)
          \<lparr>owners := [\<lparr>ptr = 1, name = ''A'', accesstype = ''r'', watch = 3,
                        request = Some \<lparr>msg = client_call ''A'' ''r'', req_id = 0\<rparr>\<rparr>],
           read_lock := True,
           effects := [Add_disconnect_watch ''A'' 1, Avdtp_get]\<rparr>)
       \<lparr>ptr = 1, name = ''A'', accesstype = ''r'', watch = 3,
        request = Some \<lparr>msg = client_call ''A'' ''r'', req_id = 0\<rparr>\<rparr> \<and>
   last (effects (snd (acquire env_no_session (media_transport_create A2DP)
                        (client_call ''A'' ''r'')))) = A2dp_sep_unlock False \<and>
   in_use (snd (acquire env_no_session (media_transport_create A2DP)
                  (client_call ''A'' ''r''))) = False \<and>
   A2dp_sep_lock \<notin> set (effects (snd (acquire env_no_session (media_transport_create A2DP)
                                         (client_call ''A'' ''r''))))"
proof -
  let ?owner = "\<lparr>ptr = 1, name = ''A'', accesstype = ''r'', watch = 3,
        request = Some \<lparr>msg = client_call ''A'' ''r'', req_id = 0\<rparr>\<rparr>"
  let ?t = "(media_transport_create A2DP)
          \<lparr>owners := [?owner], read_lock := True,
           effects := [Add_disconnect_watch ''A'' 1, Avdtp_get]\<rparr>"
  have acq: "snd (acquire env_no_session (media_transport_create A2DP) (client_call ''A'' ''r'')) =
      media_owner_remove ?t ?owner"
    by (simp add: acquire_def media_transport_create_def media_transport_find_owner_def
        media_transport_acquire_def media_owner_create_def resume_def resume_a2dp_def
        emit_def update_owner_def new_ptr_def client_call_def env_no_session_def Let_def)
  have last_one: "g_slist_remove (owners ?t) (ptr ?owner) = []"
    by simp
  have lock: "A2dp_sep_lock \<notin> set (effects (media_owner_remove ?t ?owner))"
    by (simp add: media_owner_remove_effects teardown_events_def request_events_def
        suspend_event_def media_transport_create_def)
  show ?thesis
    unfolding acq
    using media_owner_remove_last_suspends [OF last_one] lock
    by (simp add: media_transport_create_def)
qed

section \<open>Deferred and immediate teardown\<close>

text \<open>
  Claim C5. The owner at address \<open>p\<close> has a pending request and owner addresses are
  distinct. When the A2DP completion callback fails (error, no stream, no stream
  transport, or the reply cannot be sent), it only clears the ticket and puts
  \<open>remove_owner\<close> for \<open>p\<close> on the idle queue: the owner is still in the list, the locks
  are untouched and no error reply has been sent; the teardown is what the idle
  callback does when it runs. Every other path has torn the owner down when it returns
  and leaves the idle queue as it was:
  \<^item> the headset completion callback that fails: the error reply is sent and the owner
    is gone;
  \<^item> \<open>Acquire\<close> whose resume returns no ticket: the error reply is sent on the caller's
    message and the owner list is what it was before the call;
  \<^item> \<open>Release\<close> of exactly the held access: the result is that of \<open>media_owner_remove\<close>,
    the error reply for the pending request is sent and the owner is gone;
  \<^item> a client leaving the bus: every owner of that name with a watch is gone;
  \<^item> \<open>media_transport_free\<close>: no owner is left and the error reply for the pending
    request has been sent;
  \<^item> the two teardown functions themselves, which have unlinked the owner when they
    return.
\<close>

theorem teardown_deferral:
  assumes at: "owner_at transport p = Some owner"
    and rq: "request owner = Some req"
    and d: "distinct (map ptr (owners transport))"
  shows "(err \<or> \<not> stream \<or> stream_transport = None \<or> \<not> sent \<longrightarrow>
           (\<exists>t'. a2dp_resume_complete err stream stream_transport sent transport p = Some t' \<and>
                 idle t' = idle transport @ [p] \<and>
                 owner_at t' p = Some (owner\<lparr>request := Some (req\<lparr>req_id := 0\<rparr>)\<rparr>) \<and>
                 read_lock t' = read_lock transport \<and>
                 write_lock t' = write_lock transport \<and>
                 filter (is_error_reply_to (msg req)) (new_effects transport t') = [] \<and>
                 remove_owner t' p =
                   Some (media_owner_remove t' (owner\<lparr>request := Some (req\<lparr>req_id := 0\<rparr>)\<rparr>)))) \<and>
         (\<not> dev \<or> sco_fd < 0 \<or> \<not> sent \<longrightarrow>
           (\<exists>t'. headset_resume_complete dev sco_fd sent transport p = Some t' \<and>
                 idle t' = idle transport \<and>
                 owner_at t' p = None \<and>
                 filter (is_error_reply_to (msg req)) (new_effects transport t') =
                   [Send_error (msg req) strerror_EIO])) \<and>
         idle (snd (acquire e transport m)) = idle transport \<and>
         idle (snd (release transport m)) = idle transport \<and>
         idle (client_disconnect transport nm) = idle transport \<and>
         idle (media_transport_free transport) = idle transport \<and>
         idle (media_owner_exit transport owner) = idle transport \<and>
         idle (media_owner_remove transport owner) = idle transport \<and>
         owner_at (media_owner_exit transport owner) p = None \<and>
         owner_at (media_owner_remove transport owner) p = None \<and>
         (args m = Some atype \<and> media_transport_find_owner transport (sender m) = None \<and>
          media_transport_acquire transport atype = (True, t1) \<and>
          fst (resume e (snd (media_owner_create e t1 m atype))
                 (fst (media_owner_create e t1 m atype))) = 0 \<longrightarrow>
            owners (snd (acquire e transport m)) = owners transport \<and>
            filter (is_error_reply_to m) (new_effects transport (snd (acquire e transport m))) =
              [Send_error m strerror_EIO]) \<and>
         (args m = Some (accesstype owner) \<and>
          media_transport_find_owner transport (sender m) = Some owner \<longrightarrow>
            release transport m = (Some (Method_return m), media_owner_remove transport owner) \<and>
            owner_at (snd (release transport m)) p = None \<and>
            filter (is_error_reply_to (msg req)) (new_effects transport (snd (release transport m))) =
              [Send_error (msg req) strerror_EIO]) \<and>
         owners (client_disconnect transport nm) =
           filter (\<lambda>x. \<not> (name x = nm \<and> watch x \<noteq> 0)) (owners transport) \<and>
         (name owner = nm \<and> watch owner \<noteq> 0 \<longrightarrow>
            owner_at (client_disconnect transport nm) p = None) \<and>
         owners (media_transport_free transport) = [] \<and>
         Send_error (msg req) strerror_EIO
           \<in> set (new_effects transport (media_transport_free transport))"
proof -
  have mem: "owner \<in> set (owners transport)" and p: "ptr owner = p"
    using at find_Some_mem [of "\<lambda>x. ptr x = p" "owners transport" owner]
    by (simp_all add: owner_at_def)
  have a: "\<exists>t'. a2dp_resume_complete err stream stream_transport sent transport p = Some t' \<and>
                 idle t' = idle transport @ [p] \<and>
                 owner_at t' p = Some (owner\<lparr>request := Some (req\<lparr>req_id := 0\<rparr>)\<rparr>) \<and>
                 read_lock t' = read_lock transport \<and>
                 write_lock t' = write_lock transport \<and>
                 filter (is_error_reply_to (msg req)) (new_effects transport t') = [] \<and>
                 remove_owner t' p =
                   Some (media_owner_remove t' (owner\<lparr>request := Some (req\<lparr>req_id := 0\<rparr>)\<rparr>))"
    if "err \<or> \<not> stream \<or> stream_transport = None \<or> \<not> sent"
    using a2dp_resume_complete_fails [OF at rq that] remove_owner_runs by fastforce
  have h: "\<exists>t'. headset_resume_complete dev sco_fd sent transport p = Some t' \<and>
                 idle t' = idle transport \<and>
                 owner_at t' p = None \<and>
                 filter (is_error_reply_to (msg req)) (new_effects transport t') =
                   [Send_error (msg req) strerror_EIO]"
    if "\<not> dev \<or> sco_fd < 0 \<or> \<not> sent"
    using headset_resume_complete_fails [OF at rq d that] .
  have u: "owner_at (media_owner_exit transport owner) p = None"
    "owner_at (media_owner_remove transport owner) p = None"
    using media_owner_exit_unlinked [OF d, of owner] media_owner_remove_unlinked [OF d, of owner]
    by (simp_all add: p)
  have i: "idle (snd (acquire e transport m)) = idle transport"
    "idle (snd (release transport m)) = idle transport"
    "idle (client_disconnect transport nm) = idle transport"
    "idle (media_transport_free transport) = idle transport"
    "idle (media_owner_exit transport owner) = idle transport"
    "idle (media_owner_remove transport owner) = idle transport"
    by (simp_all add: idle_acquire idle_release client_disconnect_def media_transport_free_def
        idle_fold_exit idle_fold_remove media_owner_exit_fields media_owner_remove_fields)
  have acq: "owners (snd (acquire e transport m)) = owners transport \<and>
            filter (is_error_reply_to m) (new_effects transport (snd (acquire e transport m))) =
              [Send_error m strerror_EIO]"
    if "args m = Some atype \<and> media_transport_find_owner transport (sender m) = None \<and>
          media_transport_acquire transport atype = (True, t1) \<and>
          fst (resume e (snd (media_owner_create e t1 m atype))
                 (fst (media_owner_create e t1 m atype))) = 0"
  proof -
    from that have a1: "args m = Some atype"
      and a2: "media_transport_find_owner transport (sender m) = None"
      and a3: "media_transport_acquire transport atype = (True, t1)"
      and a4: "fst (resume e (snd (media_owner_create e t1 m atype))
                 (fst (media_owner_create e t1 m atype))) = 0"
      by simp_all
    show ?thesis
      using acquire_sync_failure [OF a1 a2 a3 a4] by (intro conjI)
  qed
  have rel: "release transport m = (Some (Method_return m), media_owner_remove transport owner) \<and>
            owner_at (snd (release transport m)) p = None \<and>
            filter (is_error_reply_to (msg req)) (new_effects transport (snd (release transport m))) =
              [Send_error (msg req) strerror_EIO]"
    if "args m = Some (accesstype owner) \<and>
          media_transport_find_owner transport (sender m) = Some owner"
  proof -
    from that have "release transport m = (Some (Method_return m), media_owner_remove transport owner)"
      by (simp add: release_full)
    then show ?thesis
      by (simp add: u media_owner_remove_error_reply [OF rq])
  qed
  have dis: "owners (client_disconnect transport nm) =
           filter (\<lambda>x. \<not> (name x = nm \<and> watch x \<noteq> 0)) (owners transport)"
    by (rule client_disconnect_owners [OF d])
  have gone: "owner_at (client_disconnect transport nm) p = None"
    if q: "name owner = nm \<and> watch owner \<noteq> 0"
    unfolding owner_at_def find_None_iff_ptr dis
  proof
    fix x assume "x \<in> set (filter (\<lambda>x. \<not> (name x = nm \<and> watch x \<noteq> 0)) (owners transport))"
    then have x: "x \<in> set (owners transport)" and nq: "\<not> (name x = nm \<and> watch x \<noteq> 0)"
      by simp_all
    show "ptr x \<noteq> p"
    proof
      assume "ptr x = p"
      with p have "ptr x = ptr owner" by simp
      with x mem have "x = owner" by (rule same_ptr_same_owner [OF d])
      with q nq show False by blast
    qed
  qed
  have fr: "owners (media_transport_free transport) = []"
    by (rule media_transport_free_owners [OF d])
  have fe: "Send_error (msg req) strerror_EIO
           \<in> set (new_effects transport (media_transport_free transport))"
    by (rule media_transport_free_error_reply [OF mem rq])
  note a' = impI [OF a] and h' = impI [OF h] and acq' = impI [OF acq]
    and rel' = impI [OF rel] and gone' = impI [OF gone]
  show ?thesis
    by (intro conjI) (rule a' h' u i acq' rel' dis gone' fr fe | assumption)+
qed

text \<open>
  Client A has a pending \<open>Acquire ("r")\<close>. The completion reports an error, once on an
  A2DP transport and once on a headset transport; or A releases \<open>r\<close>, or leaves the bus,
  or the transport is destroyed; or client B calls \<open>Acquire ("w")\<close> and the resume
  returns no ticket.
\<close>

theorem teardown_deferral_witness:
  "(\<exists>t'. a2dp_resume_complete True False None False (acquired A2DP ''A'' ''r'' 7) 1 = Some t' \<and>
         idle t' = [1] \<and> read_lock t' \<and> owner_at t' 1 \<noteq> None) \<and>
   (\<exists>t'. headset_resume_complete False (- 1) False (acquired HEADSET ''A'' ''r'' 7) 1 = Some t' \<and>
         idle t' = [] \<and> owner_at t' 1 = None) \<and>
   owner_at (snd (release (acquired A2DP ''A'' ''r'' 7) (client_call ''A'' ''r''))) 1 = None \<and>
   owner_at (client_disconnect (acquired A2DP ''A'' ''r'' 7) ''A'') 1 = None \<and>
   owners (media_transport_free (acquired A2DP ''A'' ''r'' 7)) = [] \<and>
   owners (snd (acquire (env_ok 0) (acquired A2DP ''A'' ''r'' 7) (client_call ''B'' ''w''))) =
     owners (acquired A2DP ''A'' ''r'' 7)"
proof -
  let ?req = "\<lparr>msg = client_call ''A'' ''r'', req_id = 7\<rparr>"
  let ?owner = "\<lparr>ptr = 1, name = ''A'', accesstype = ''r'', watch = 3, request = Some ?req\<rparr>"
  let ?t = "acquired A2DP ''A'' ''r'' 7"
  have rq: "request ?owner = Some ?req" by simp
  have at: "owner_at ?t 1 = Some ?owner"
    and d: "distinct (map ptr (owners ?t))"
    and i: "idle ?t = []" "read_lock ?t"
    and fo: "media_transport_find_owner ?t (sender (client_call ''A'' ''r'')) = Some ?owner"
    and fb: "media_transport_find_owner ?t (sender (client_call ''B'' ''w'')) = None"
    and qb: "media_transport_acquire ?t ''w'' = (True, ?t\<lparr>write_lock := True\<rparr>)"
    by (simp_all add: model_defs)
  have rb: "fst (resume (env_ok 0)
       (snd (media_owner_create (env_ok 0) (?t\<lparr>write_lock := True\<rparr>) (client_call ''B'' ''w'') ''w''))
       (fst (media_owner_create (env_ok 0) (?t\<lparr>write_lock := True\<rparr>) (client_call ''B'' ''w'') ''w''))) = 0"
    by (simp add: model_defs)
  have atH: "owner_at (acquired HEADSET ''A'' ''r'' 7) 1 = Some ?owner"
    and dH: "distinct (map ptr (owners (acquired HEADSET ''A'' ''r'' 7)))"
    and iH: "idle (acquired HEADSET ''A'' ''r'' 7) = []"
    by (simp_all add: model_defs)
  have aa: "args (client_call ''A'' ''r'') = Some (accesstype ?owner)"
    and ab: "args (client_call ''B'' ''w'') = Some ''w''"
    by (simp_all add: client_call_def)
  from teardown_deferral [OF at rq d, where err = True and stream = False
      and stream_transport = None and sent = False]
  obtain t' where "a2dp_resume_complete True False None False ?t 1 = Some t'"
    "idle t' = idle ?t @ [1]"
    "read_lock t' = read_lock ?t"
    "owner_at t' 1 = Some (?owner\<lparr>request := Some (?req\<lparr>req_id := 0\<rparr>)\<rparr>)"
    by blast
  then have 1: "\<exists>t'. a2dp_resume_complete True False None False ?t 1 = Some t' \<and>
         idle t' = [1] \<and> read_lock t' \<and> owner_at t' 1 \<noteq> None"
    using i by simp
  from teardown_deferral [OF atH rq dH, where dev = False and sco_fd = "- 1" and sent = False]
  obtain t'' where "headset_resume_complete False (- 1) False (acquired HEADSET ''A'' ''r'' 7) 1 = Some t''"
    "idle t'' = idle (acquired HEADSET ''A'' ''r'' 7)" "owner_at t'' 1 = None"
    by blast
  then have 2: "\<exists>t'. headset_resume_complete False (- 1) False (acquired HEADSET ''A'' ''r'' 7) 1 = Some t' \<and>
         idle t' = [] \<and> owner_at t' 1 = None"
    using iH by simp
  from teardown_deferral [OF at rq d, where m = "client_call ''A'' ''r''" and nm = "''A''"] aa fo
  have 3: "owner_at (snd (release ?t (client_call ''A'' ''r''))) 1 = None"
    and 4: "owner_at (client_disconnect ?t ''A'') 1 = None"
    and 5: "owners (media_transport_free ?t) = []"
    by simp_all
  from teardown_deferral [OF at rq d, where m = "client_call ''B'' ''w''" and e = "env_ok 0"
      and atype = "''w''" and ?t1.0 = "?t\<lparr>write_lock := True\<rparr>"] ab fb qb rb
  have 6: "owners (snd (acquire (env_ok 0) ?t (client_call ''B'' ''w''))) = owners ?t"
    by blast
  from 1 2 3 4 5 6 show ?thesis by blast
qed

section \<open>Locks and owners\<close>

text \<open>
  Claim C2. Start from a freshly created transport of either profile and let anything
  happen to it, in any order and with any answers of the collaborators: \<open>Acquire\<close> and
  \<open>Release\<close> calls, clients leaving the bus, resumes completing with success or
  failure, idle sources running, the transport being destroyed. In every state
  reached, the read lock is set if and only if exactly one owner of the list holds read
  access, the write lock is set if and only if exactly one owner holds write access,
  and never more than one owner holds either.
\<close>

theorem locks_match_owners:
  assumes "run (media_transport_create pr) ops = Some t"
  shows "(read_lock t \<longleftrightarrow> length (filter holds_read (owners t)) = 1) \<and>
         (write_lock t \<longleftrightarrow> length (filter holds_write (owners t)) = 1) \<and>
         length (filter holds_read (owners t)) \<le> 1 \<and>
         length (filter holds_write (owners t)) \<le> 1"
proof -
  have "lock_invariant t"
    by (rule lock_invariant_run [OF lock_invariant_create assms])
  then show ?thesis
    by (simp add: lock_invariant_def split: if_splits)
qed

text \<open>
  After the six operations A alone is an owner, holding what is left of \<open>rw\<close> after
  the release of \<open>r\<close>; the descriptor of the completed resume is published.
\<close>

theorem locks_match_owners_witness:
  "\<exists>t. run (media_transport_create A2DP) example_operations = Some t \<and>
       fd t = 5 \<and> map accesstype (owners t) = ['' w''] \<and>
       write_lock t \<and> length (filter holds_write (owners t)) = 1 \<and>
       \<not> read_lock t \<and> length (filter holds_read (owners t)) \<noteq> 1"
proof -
  obtain t where r: "run (media_transport_create A2DP) example_operations = Some t"
    and f: "fd t = 5" "map accesstype (owners t) = ['' w'']" "write_lock t" "\<not> read_lock t"
    by (simp add: example_operations_def run_idle_def model_defs)
  show ?thesis
    using locks_match_owners [OF r] r f by simp
qed

end
